theory Spec2Isabelle
  imports Main "HOL-Library.Word"
begin

section \<open>The blob-transaction tracker of core/eth/subscribe_blobs.go\<close>

text \<open>
  The program waits on two subscriptions of an execution client (pending transactions,
  new heads), keeps the blob transactions it has seen in a map, and on every new head
  walks that map to retire the entries that were included or replaced. This theory
  embeds the two event handlers of \<open>main\<close>, the helper functions they call and the
  two file functions, and proves what they do.

  What lies outside the repository is a parameter of the model:
  \<^item> the answers of the execution client, the clock, the file system's failures and the
    order in which \<open>range\<close> yields the keys of a Go map are fields of \<open>env\<close>, one
    \<open>env\<close> per event;
  \<^item> the library functions \<open>eip4844.CalcBlobFee\<close>, \<open>strings.ToValidUTF8\<close>,
    \<open>Time.String\<close> and the JSON encoder and decoder are fields of \<open>deps\<close>;
  \<^item> the methods of \<open>gethtypes.Transaction\<close> and \<open>gethtypes.Header\<close> are the fields
    of the records \<open>Transaction\<close> and \<open>Header\<close>. \<open>tx_Sender\<close> is the result of
    \<open>gethtypes.Sender(gethtypes.NewCancunSigner(chainID), tx)\<close> for the chain identifier
    read at startup, \<open>None\<close> when it returns an error.
  Log lines are not part of the state; the numbers of the post-block log lines are
  returned by the head handler as a \<open>Summary\<close>.

  A failure that ends the process (\<open>log.Fatal\<close>, or the dereference of a nil
  \<open>BaseFee\<close>) is the result \<open>Inl\<close> of a handler. The number of a header from the
  client is never nil, so \<open>hd_Number\<close> is an \<open>int\<close>. The loop body reads the clock
  twice, for a log line and for the inclusion record; \<open>time_Now\<close> is the reading that
  goes into the record.
\<close>

subsection \<open>Data\<close>

type_synonym Hash = "256 word"      \<comment> \<open>\<open>common.Hash\<close>, 32 bytes\<close>
type_synonym Address = "160 word"   \<comment> \<open>\<open>common.Address\<close>, 20 bytes\<close>
type_synonym uint64 = "64 word"
type_synonym Time = int             \<comment> \<open>a reading of the clock, in nanoseconds\<close>
type_synonym Duration = int         \<comment> \<open>\<open>time.Duration\<close>: nanoseconds, within int64\<close>

text \<open>
  A \<open>float64\<close> is kept as the expression that computes it; the rounding of the
  conversion and of the division is not modelled. Equal terms denote equal floats, and
  \<open>Uint64_div_GWei 0\<close> is the float \<open>0\<close>.
\<close>

datatype float64 =
    Uint64_div_GWei uint64     \<comment> \<open>\<open>float64(x) / params.GWei\<close>\<close>
  | Big_Float64_div_GWei int   \<comment> \<open>\<open>x.Float64() / params.GWei\<close>\<close>
  | Duration_Seconds Duration  \<comment> \<open>\<open>d.Seconds()\<close>\<close>

record Transaction =
  tx_Type :: "8 word"
  tx_Hash :: Hash
  tx_Nonce :: uint64
  tx_BlobGasFeeCap :: int
  tx_BlobGas :: uint64
  tx_BlobHashes :: "Hash list"
  tx_GasFeeCap :: int
  tx_GasTipCap :: int
  tx_Gas :: uint64
  tx_Sender :: "Address option"

record Header =
  hd_Hash :: Hash
  hd_Number :: int
  hd_Time :: uint64
  hd_BaseFee :: "int option"            \<comment> \<open>\<open>*big.Int\<close>, nil before the London fork\<close>
  hd_ExcessBlobGas :: "uint64 option"   \<comment> \<open>\<open>*uint64\<close>, nil before blob-fee accounting\<close>
  hd_Extra :: "8 word list"

record Receipt =
  rc_BlockHash :: Hash
  rc_BlockNumber :: int

record TxData =
  TxData_TxHash :: Hash
  TxData_BlobGasFeeCapGwei :: float64
  TxData_BlobGas :: uint64
  TxData_BlobCount :: int
  TxData_GasFeeCapGwei :: float64
  TxData_GasTipCapGwei :: float64
  TxData_Gas :: uint64
  TxData_Account :: Address

record BlockData =
  BlockData_BlockHash :: Hash
  BlockData_BlockNumber :: uint64
  BlockData_BlockTime :: uint64
  BlockData_BlobBaseFeeWei :: uint64
  BlockData_BaseFeeGwei :: float64
  BlockData_Builder :: string

record TxMetricsData =
  TxMetrics_Account :: Address
  TxMetrics_BlobCount :: int
  TxMetrics_BlobGasFeeCap :: uint64
  TxMetrics_TxTime :: string

record TxInclusionData =
  TxInclusion_Account :: Address
  TxInclusion_BlobCount :: int
  TxInclusion_InclusionDelay :: float64
  TxInclusion_GasTipGwei :: float64

definition BlobTxType :: "8 word" where
  "BlobTxType = 3"

definition dataFolder :: string where
  "dataFolder = ''data''"

definition txDataFile :: string where
  "txDataFile = ''data/tx_data.json''"

definition blockDataFile :: string where
  "blockDataFile = ''data/block_data.json''"

definition txMetricsFile :: string where
  "txMetricsFile = ''data/tx_metrics.json''"

definition txInclusionFile :: string where
  "txInclusionFile = ''data/tx_inclusion.json''"

text \<open>\<open>TxData{}\<close>, the zero value of the struct.\<close>

definition TxData_zero :: TxData where
  "TxData_zero =
     \<lparr>TxData_TxHash = 0, TxData_BlobGasFeeCapGwei = Uint64_div_GWei 0, TxData_BlobGas = 0,
      TxData_BlobCount = 0, TxData_GasFeeCapGwei = Uint64_div_GWei 0,
      TxData_GasTipCapGwei = Uint64_div_GWei 0, TxData_Gas = 0, TxData_Account = 0\<rparr>"

subsection \<open>What the program is given\<close>

datatype fatal =
    CouldNotCreateFile string
  | CouldNotEncode string
  | CouldNotOpenFile string
  | CouldNotReadFile string
  | CouldNotUnmarshal string
  | CouldNotCreateFolder string
  | NilPointerDereference

record 'a json =
  json_Encode :: "'a list \<Rightarrow> string"
  json_Unmarshal :: "string \<Rightarrow> 'a list option"

record deps =
  CalcBlobFee :: "uint64 \<Rightarrow> int"
  ToValidUTF8 :: "8 word list \<Rightarrow> string"
  Time_String :: "Time \<Rightarrow> string"
  json_TxData :: "TxData json"
  json_BlockData :: "BlockData json"
  json_TxMetricsData :: "TxMetricsData json"
  json_TxInclusionData :: "TxInclusionData json"

text \<open>
  \<open>TransactionReceipt\<close> and \<open>NonceAtHash\<close> are \<open>None\<close> when the call returns an
  error. \<open>time_Now k\<close> is the clock while the transaction with hash \<open>k\<close> is handled.
  \<open>range_order\<close> is the order in which \<open>range pendingTxs\<close> yields the keys.
\<close>

record env =
  TransactionReceipt :: "Hash \<Rightarrow> Receipt option"
  NonceAtHash :: "Address \<Rightarrow> Hash \<Rightarrow> uint64 option"
  time_Now :: "Hash \<Rightarrow> Time"
  range_order :: "Hash list"
  os_Create_ok :: "string \<Rightarrow> bool"
  Encode_ok :: "string \<Rightarrow> bool"
  os_Open_ok :: "string \<Rightarrow> bool"
  ReadAll_ok :: "string \<Rightarrow> bool"
  os_Mkdir_ok :: "string \<Rightarrow> bool"

record disk =
  files :: "string \<rightharpoonup> string"
  folders :: "string set"

subsection \<open>The variables of \<open>main\<close>\<close>

record state =
  currBaseFee :: int
  pendingTxs :: "Hash \<rightharpoonup> Transaction"
  txTime :: "Hash \<rightharpoonup> Time"
  txDataList :: "TxData list"
  blockDataList :: "BlockData list"
  txMetricsList :: "TxMetricsData list"
  txInclusionList :: "TxInclusionData list"
  the_disk :: disk

text \<open>The state of the loop over \<open>pendingTxs\<close>: the variables of \<open>main\<close> and the three counters.\<close>

record pass =
  vars :: state
  blobsIncluded :: int
  viabletxs :: int
  viableBlobs :: int

text \<open>The numbers of the log lines written after the loop (lines 210 to 221).\<close>

record Summary =
  previousPendingTxs :: int
  currentPendingTxs :: int
  viableTxs :: int
  viableBlobCount :: int
  transactionInclusions :: int
  blobInclusions :: int

subsection \<open>Library behaviour the handlers rely on\<close>

text \<open>The method \<open>Uint64\<close> of \<open>big.Int\<close>: the low 64 bits of the absolute value.\<close>

definition big_Uint64 :: "int \<Rightarrow> uint64" where
  "big_Uint64 x = word_of_int \<bar>x\<bar>"

text \<open>\<open>time.Since(t)\<close> is \<open>time.Now().Sub(t)\<close>, which saturates at the ends of int64.\<close>

definition time_Since :: "Time \<Rightarrow> Time \<Rightarrow> Duration" where
  "time_Since now t = max (- (2 ^ 63)) (min (2 ^ 63 - 1) (now - t))"

text \<open>Reading a Go map at a missing key gives the zero \<open>time.Time\<close>, 1 January of year 1.\<close>

definition zeroTime :: Time where
  "zeroTime = - 62135596800 * 1000000000"

definition txTime_at :: "state \<Rightarrow> Hash \<Rightarrow> Time" where
  "txTime_at s k = (case txTime s k of None \<Rightarrow> zeroTime | Some t \<Rightarrow> t)"

subsection \<open>The helper functions\<close>

definition txData :: "Transaction \<Rightarrow> TxData" where
  "txData tx =
     (case tx_Sender tx of
        None \<Rightarrow> TxData_zero
      | Some acc \<Rightarrow>
          \<lparr>TxData_TxHash = tx_Hash tx,
           TxData_BlobGasFeeCapGwei = Uint64_div_GWei (big_Uint64 (tx_BlobGasFeeCap tx)),
           TxData_BlobGas = tx_BlobGas tx,
           TxData_BlobCount = int (length (tx_BlobHashes tx)),
           TxData_GasFeeCapGwei = Uint64_div_GWei (big_Uint64 (tx_GasFeeCap tx)),
           TxData_GasTipCapGwei = Uint64_div_GWei (big_Uint64 (tx_GasTipCap tx)),
           TxData_Gas = tx_Gas tx,
           TxData_Account = acc\<rparr>)"

definition recordTxMetrics ::
  "deps \<Rightarrow> TxMetricsData list \<Rightarrow> Transaction \<Rightarrow> Time \<Rightarrow> TxMetricsData list" where
  "recordTxMetrics d txMetricsList0 tx t =
     (case tx_Sender tx of
        None \<Rightarrow> txMetricsList0
      | Some acc \<Rightarrow>
          txMetricsList0 @
            [\<lparr>TxMetrics_Account = acc,
              TxMetrics_BlobCount = int (length (tx_BlobHashes tx)),
              TxMetrics_BlobGasFeeCap = big_Uint64 (tx_BlobGasFeeCap tx),
              TxMetrics_TxTime = Time_String d t\<rparr>])"

definition recordTxInclusion ::
  "TxInclusionData list \<Rightarrow> Transaction \<Rightarrow> Duration \<Rightarrow> TxInclusionData list" where
  "recordTxInclusion txInclusionList0 tx inclusionDelay =
     (case tx_Sender tx of
        None \<Rightarrow> txInclusionList0
      | Some acc \<Rightarrow>
          txInclusionList0 @
            [\<lparr>TxInclusion_Account = acc,
              TxInclusion_BlobCount = int (length (tx_BlobHashes tx)),
              TxInclusion_InclusionDelay = Duration_Seconds inclusionDelay,
              TxInclusion_GasTipGwei = Big_Float64_div_GWei (tx_GasTipCap tx)\<rparr>])"

text \<open>
  \<open>os.Create\<close> truncates the file, and the encoder writes the whole value: the file's
  old content is replaced. Both failures end the process (\<open>log.Fatal\<close>).
\<close>

definition saveDataToFile ::
  "env \<Rightarrow> ('a list \<Rightarrow> string) \<Rightarrow> string \<Rightarrow> 'a list \<Rightarrow> disk \<Rightarrow> fatal + disk" where
  "saveDataToFile e enc filename data dk =
     (if \<not> os_Create_ok e filename then Inl (CouldNotCreateFile filename)
      else if \<not> Encode_ok e filename then Inl (CouldNotEncode filename)
      else Inr (dk\<lparr>files := (files dk)(filename \<mapsto> enc data)\<rparr>))"

text \<open>\<open>os.Stat\<close> succeeds on the files the disk has. A missing file leaves \<open>data\<close> nil.\<close>

definition loadDataFromFile ::
  "env \<Rightarrow> (string \<Rightarrow> 'a list option) \<Rightarrow> string \<Rightarrow> disk \<Rightarrow> fatal + 'a list" where
  "loadDataFromFile e dec filename dk =
     (case files dk filename of
        None \<Rightarrow> Inr []
      | Some byteValue \<Rightarrow>
          if \<not> os_Open_ok e filename then Inl (CouldNotOpenFile filename)
          else if \<not> ReadAll_ok e filename then Inl (CouldNotReadFile filename)
          else (case dec byteValue of
                  None \<Rightarrow> Inl (CouldNotUnmarshal filename)
                | Some data \<Rightarrow> Inr data))"

definition createDataFolder :: "env \<Rightarrow> disk \<Rightarrow> fatal + disk" where
  "createDataFolder e dk =
     (if dataFolder \<in> folders dk then Inr dk
      else if \<not> os_Mkdir_ok e dataFolder then Inl (CouldNotCreateFolder dataFolder)
      else Inr (dk\<lparr>folders := insert dataFolder (folders dk)\<rparr>))"

subsection \<open>The pending-transaction event (lines 135 to 146)\<close>

definition case_txChan :: "deps \<Rightarrow> env \<Rightarrow> Transaction \<Rightarrow> state \<Rightarrow> fatal + state" where
  "case_txChan d e tx s =
     (if tx_Type tx = BlobTxType then
        let tHash = tx_Hash tx;
            txData1 = txData tx;
            txTime1 = (txTime s)(tHash \<mapsto> time_Now e tHash);
            txMetricsList1 = recordTxMetrics d (txMetricsList s) tx (time_Now e tHash);
            pendingTxs1 = (pendingTxs s)(tHash \<mapsto> tx);
            txDataList1 = txDataList s @ [txData1]
        in case saveDataToFile e (json_Encode (json_TxData d)) txDataFile txDataList1
                  (the_disk s) of
             Inl err \<Rightarrow> Inl err
           | Inr dk1 \<Rightarrow>
               (case saveDataToFile e (json_Encode (json_TxMetricsData d)) txMetricsFile
                       txMetricsList1 dk1 of
                  Inl err \<Rightarrow> Inl err
                | Inr dk2 \<Rightarrow>
                    Inr (s\<lparr>pendingTxs := pendingTxs1, txTime := txTime1,
                           txDataList := txDataList1, txMetricsList := txMetricsList1,
                           the_disk := dk2\<rparr>))
      else Inr s)"

subsection \<open>The new-head event (lines 148 to 222)\<close>

text \<open>The body of the loop, for the key \<open>hash\<close> and its value \<open>tx\<close> (lines 170 to 207).\<close>

definition range_body ::
  "deps \<Rightarrow> env \<Rightarrow> Header \<Rightarrow> Hash \<Rightarrow> Transaction \<Rightarrow> pass \<Rightarrow> fatal + pass" where
  "range_body d e h hash tx p =
     (let s = vars p in
      if (case TransactionReceipt e hash of
            None \<Rightarrow> False
          | Some r \<Rightarrow> rc_BlockHash r = hd_Hash h)
      then
        let txInclusionList1 =
              recordTxInclusion (txInclusionList s) tx
                (time_Since (time_Now e hash) (txTime_at s hash))
        in case saveDataToFile e (json_Encode (json_TxInclusionData d)) txInclusionFile
                  txInclusionList1 (the_disk s) of
             Inl err \<Rightarrow> Inl err
           | Inr dk1 \<Rightarrow>
               Inr (p\<lparr>vars := s\<lparr>pendingTxs := (pendingTxs s)(hash := None),
                                 txTime := (txTime s)(hash := None),
                                 txInclusionList := txInclusionList1,
                                 the_disk := dk1\<rparr>,
                      blobsIncluded := blobsIncluded p + int (length (tx_BlobHashes tx))\<rparr>)
      else
        (case tx_Sender tx of
           None \<Rightarrow> Inr p
         | Some acc \<Rightarrow>
             (case NonceAtHash e acc (hd_Hash h) of
                None \<Rightarrow> Inr p
              | Some currNonce \<Rightarrow>
                  if tx_Nonce tx < currNonce then
                    Inr (p\<lparr>vars := s\<lparr>pendingTxs := (pendingTxs s)(hash := None),
                                      txTime := (txTime s)(hash := None)\<rparr>\<rparr>)
                  else if tx_Nonce tx \<noteq> currNonce then Inr p
                  else if tx_BlobGasFeeCap tx \<ge> currBaseFee s then
                    Inr (p\<lparr>viabletxs := viabletxs p + 1,
                           viableBlobs := viableBlobs p + int (length (tx_BlobHashes tx))\<rparr>)
                  else Inr p)))"

text \<open>
  \<open>for hash, tx := range pendingTxs\<close>, the keys coming in the order of the list. Go
  does not yield an entry that was deleted before the loop reached it.
\<close>

fun range_pendingTxs ::
  "deps \<Rightarrow> env \<Rightarrow> Header \<Rightarrow> Hash list \<Rightarrow> pass \<Rightarrow> fatal + pass" where
  "range_pendingTxs d e h [] p = Inr p"
| "range_pendingTxs d e h (hash # rest) p =
     (case pendingTxs (vars p) hash of
        None \<Rightarrow> range_pendingTxs d e h rest p
      | Some tx \<Rightarrow>
          (case range_body d e h hash tx p of
             Inl err \<Rightarrow> Inl err
           | Inr p1 \<Rightarrow> range_pendingTxs d e h rest p1))"

definition case_hdrChan ::
  "deps \<Rightarrow> env \<Rightarrow> Header \<Rightarrow> state \<Rightarrow> fatal + state \<times> Summary" where
  "case_hdrChan d e h s =
     (let currBaseFee1 =
            (case hd_ExcessBlobGas h of
               None \<Rightarrow> currBaseFee s
             | Some excess \<Rightarrow> CalcBlobFee d excess)
      in (case hd_BaseFee h of
            None \<Rightarrow> Inl NilPointerDereference
          | Some baseFee \<Rightarrow>
              (let blockData =
                     \<lparr>BlockData_BlockHash = hd_Hash h,
                      BlockData_BlockNumber = big_Uint64 (hd_Number h),
                      BlockData_BlockTime = hd_Time h,
                      BlockData_BlobBaseFeeWei = big_Uint64 currBaseFee1,
                      BlockData_BaseFeeGwei = Uint64_div_GWei (big_Uint64 baseFee),
                      BlockData_Builder = ToValidUTF8 d (hd_Extra h)\<rparr>;
                   blockDataList1 = blockDataList s @ [blockData]
               in (case saveDataToFile e (json_Encode (json_BlockData d)) blockDataFile
                          blockDataList1 (the_disk s) of
                     Inl err \<Rightarrow> Inl err
                   | Inr dk1 \<Rightarrow>
                       (let s1 = s\<lparr>currBaseFee := currBaseFee1,
                                     blockDataList := blockDataList1, the_disk := dk1\<rparr>;
                            currentPendingTxs0 = int (card (dom (pendingTxs s1)))
                        in (case range_pendingTxs d e h (range_order e)
                                   \<lparr>vars = s1, blobsIncluded = 0, viabletxs = 0,
                                    viableBlobs = 0\<rparr> of
                              Inl err \<Rightarrow> Inl err
                            | Inr p \<Rightarrow>
                                Inr (vars p,
                                     \<lparr>previousPendingTxs = currentPendingTxs0,
                                      currentPendingTxs =
                                        int (card (dom (pendingTxs (vars p)))),
                                      viableTxs = viabletxs p,
                                      viableBlobCount = viableBlobs p,
                                      transactionInclusions =
                                        currentPendingTxs0
                                          - int (card (dom (pendingTxs (vars p)))),
                                      blobInclusions = blobsIncluded p\<rparr>)))))))"

text \<open>
  The order of the keys is one \<open>range\<close> can produce: every key of the map, once.
\<close>

definition range_order_ok :: "env \<Rightarrow> state \<Rightarrow> bool" where
  "range_order_ok e s \<longleftrightarrow> distinct (range_order e) \<and> set (range_order e) = dom (pendingTxs s)"

subsection \<open>Startup, shutdown and the event loop\<close>

text \<open>
  Lines 96 to 105: the variables of \<open>main\<close> before the first event. The four lists are
  read from the files that exist.
\<close>

definition main_init :: "deps \<Rightarrow> env \<Rightarrow> disk \<Rightarrow> fatal + state" where
  "main_init d e dk =
     (case loadDataFromFile e (json_Unmarshal (json_TxData d)) txDataFile dk of
        Inl err \<Rightarrow> Inl err
      | Inr txDataList0 \<Rightarrow>
     (case loadDataFromFile e (json_Unmarshal (json_BlockData d)) blockDataFile dk of
        Inl err \<Rightarrow> Inl err
      | Inr blockDataList0 \<Rightarrow>
     (case loadDataFromFile e (json_Unmarshal (json_TxMetricsData d)) txMetricsFile dk of
        Inl err \<Rightarrow> Inl err
      | Inr txMetricsList0 \<Rightarrow>
     (case loadDataFromFile e (json_Unmarshal (json_TxInclusionData d)) txInclusionFile dk of
        Inl err \<Rightarrow> Inl err
      | Inr txInclusionList0 \<Rightarrow>
     (case createDataFolder e dk of
        Inl err \<Rightarrow> Inl err
      | Inr dk1 \<Rightarrow>
          Inr \<lparr>currBaseFee = 0, pendingTxs = Map.empty, txTime = Map.empty,
               txDataList = txDataList0, blockDataList = blockDataList0,
               txMetricsList = txMetricsList0, txInclusionList = txInclusionList0,
               the_disk = dk1\<rparr>)))))"

text \<open>The four saves of lines 116 to 119 and 129 to 132.\<close>

definition save_all :: "deps \<Rightarrow> env \<Rightarrow> state \<Rightarrow> fatal + state" where
  "save_all d e s =
     (case saveDataToFile e (json_Encode (json_TxData d)) txDataFile (txDataList s)
             (the_disk s) of
        Inl err \<Rightarrow> Inl err
      | Inr dk1 \<Rightarrow>
     (case saveDataToFile e (json_Encode (json_BlockData d)) blockDataFile (blockDataList s)
             dk1 of
        Inl err \<Rightarrow> Inl err
      | Inr dk2 \<Rightarrow>
     (case saveDataToFile e (json_Encode (json_TxMetricsData d)) txMetricsFile
             (txMetricsList s) dk2 of
        Inl err \<Rightarrow> Inl err
      | Inr dk3 \<Rightarrow>
     (case saveDataToFile e (json_Encode (json_TxInclusionData d)) txInclusionFile
             (txInclusionList s) dk3 of
        Inl err \<Rightarrow> Inl err
      | Inr dk4 \<Rightarrow> Inr (s\<lparr>the_disk := dk4\<rparr>)))))"

datatype event =
    PSub_Err                \<comment> \<open>\<open>case err := <-pSub.Err()\<close>\<close>
  | HSub_Err                \<comment> \<open>\<open>case err := <-hSub.Err()\<close>\<close>
  | TxChan Transaction      \<comment> \<open>\<open>case tx := <-txChan\<close>\<close>
  | HdrChan Header          \<comment> \<open>\<open>case h := <-hdrChan\<close>\<close>

text \<open>
  The \<open>for\<close>/\<open>select\<close> loop on the events that arrive, each with its environment.
  A subscription error saves the lists and returns; when the list of events is used up
  the result is the state the loop waits in.
\<close>

fun main_loop :: "deps \<Rightarrow> (env \<times> event) list \<Rightarrow> state \<Rightarrow> fatal + state" where
  "main_loop d [] s = Inr s"
| "main_loop d ((e, PSub_Err) # evs) s = save_all d e s"
| "main_loop d ((e, HSub_Err) # evs) s = save_all d e s"
| "main_loop d ((e, TxChan tx) # evs) s =
     (case case_txChan d e tx s of
        Inl err \<Rightarrow> Inl err
      | Inr s1 \<Rightarrow> main_loop d evs s1)"
| "main_loop d ((e, HdrChan h) # evs) s =
     (case case_hdrChan d e h s of
        Inl err \<Rightarrow> Inl err
      | Inr (s1, sm) \<Rightarrow> main_loop d evs s1)"

text \<open>No head among the events carries the excess-blob-gas field.\<close>

definition no_excess_blob_gas :: "(env \<times> event) list \<Rightarrow> bool" where
  "no_excess_blob_gas evs =
     list_all (\<lambda>(e, ev). case ev of HdrChan h \<Rightarrow> hd_ExcessBlobGas h = None | _ \<Rightarrow> True) evs"


text \<open>
  What holds of the two maps between events: they have the same keys, and every
  transaction in \<open>pendingTxs\<close> is a blob transaction stored under its own hash.
\<close>

definition maps_agree :: "state \<Rightarrow> bool" where
  "maps_agree s \<longleftrightarrow>
     dom (txTime s) = dom (pendingTxs s)
     \<and> (\<forall>hash tx. pendingTxs s hash = Some tx \<longrightarrow>
           tx_Type tx = BlobTxType \<and> tx_Hash tx = hash)"

subsection \<open>The branches of the loop body, as predicates\<close>

text \<open>Line 171: the receipt lookup succeeded and the receipt is of the new head's block.\<close>

definition included :: "env \<Rightarrow> Header \<Rightarrow> Hash \<Rightarrow> bool" where
  "included e h hash =
     (case TransactionReceipt e hash of
        None \<Rightarrow> False
      | Some r \<Rightarrow> rc_BlockHash r = hd_Hash h)"

text \<open>
  Lines 181 to 192: the sender is recovered, the nonce lookup succeeds, and the account's
  nonce at the new head is above the transaction's.
\<close>

definition nonce_exceeded :: "env \<Rightarrow> Header \<Rightarrow> Transaction \<Rightarrow> bool" where
  "nonce_exceeded e h tx =
     (case tx_Sender tx of
        None \<Rightarrow> False
      | Some acc \<Rightarrow>
          (case NonceAtHash e acc (hd_Hash h) of
             None \<Rightarrow> False
           | Some currNonce \<Rightarrow> tx_Nonce tx < currNonce))"

text \<open>The entry leaves \<open>pendingTxs\<close>: by line 176 or by line 195.\<close>

definition terminal :: "env \<Rightarrow> Header \<Rightarrow> Hash \<Rightarrow> Transaction \<Rightarrow> bool" where
  "terminal e h hash tx \<longleftrightarrow> included e h hash \<or> nonce_exceeded e h tx"

text \<open>Lines 199 to 202: the nonce is the account's and the blob fee cap reaches the base fee.\<close>

definition viable :: "env \<Rightarrow> Header \<Rightarrow> int \<Rightarrow> Hash \<Rightarrow> Transaction \<Rightarrow> bool" where
  "viable e h fee hash tx \<longleftrightarrow>
     \<not> included e h hash \<and>
     (case tx_Sender tx of
        None \<Rightarrow> False
      | Some acc \<Rightarrow>
          (case NonceAtHash e acc (hd_Hash h) of
             None \<Rightarrow> False
           | Some currNonce \<Rightarrow> tx_Nonce tx = currNonce \<and> tx_BlobGasFeeCap tx \<ge> fee))"

text \<open>The records that the body appends to \<open>txInclusionList\<close> for one key of the state.\<close>

definition inclusion_of :: "env \<Rightarrow> Header \<Rightarrow> state \<Rightarrow> Hash \<Rightarrow> TxInclusionData list" where
  "inclusion_of e h s hash =
     (case pendingTxs s hash of
        None \<Rightarrow> []
      | Some tx \<Rightarrow>
          if included e h hash
          then recordTxInclusion [] tx (time_Since (time_Now e hash) (txTime_at s hash))
          else [])"

text \<open>
  What one key adds to the counters of a pass over the map \<open>m\<close>, and whether the pass
  deletes it.
\<close>

definition blobs_of :: "env \<Rightarrow> Header \<Rightarrow> (Hash \<rightharpoonup> Transaction) \<Rightarrow> Hash \<Rightarrow> int" where
  "blobs_of e h m hash =
     (case m hash of
        None \<Rightarrow> 0
      | Some tx \<Rightarrow> if included e h hash then int (length (tx_BlobHashes tx)) else 0)"

definition viable_of :: "env \<Rightarrow> Header \<Rightarrow> int \<Rightarrow> (Hash \<rightharpoonup> Transaction) \<Rightarrow> Hash \<Rightarrow> int" where
  "viable_of e h fee m hash =
     (case m hash of
        None \<Rightarrow> 0
      | Some tx \<Rightarrow> if viable e h fee hash tx then 1 else 0)"

definition viable_blobs_of ::
  "env \<Rightarrow> Header \<Rightarrow> int \<Rightarrow> (Hash \<rightharpoonup> Transaction) \<Rightarrow> Hash \<Rightarrow> int" where
  "viable_blobs_of e h fee m hash =
     (case m hash of
        None \<Rightarrow> 0
      | Some tx \<Rightarrow> if viable e h fee hash tx then int (length (tx_BlobHashes tx)) else 0)"

definition retired :: "env \<Rightarrow> Header \<Rightarrow> (Hash \<rightharpoonup> Transaction) \<Rightarrow> Hash \<Rightarrow> bool" where
  "retired e h m hash =
     (case m hash of
        None \<Rightarrow> False
      | Some tx \<Rightarrow> terminal e h hash tx)"

text \<open>The first failure of \<open>saveDataToFile\<close> on a file, if it has one.\<close>

definition save_error :: "env \<Rightarrow> string \<Rightarrow> fatal option" where
  "save_error e filename =
     (if \<not> os_Create_ok e filename then Some (CouldNotCreateFile filename)
      else if \<not> Encode_ok e filename then Some (CouldNotEncode filename)
      else None)"

subsection \<open>The parts of the head handler, named\<close>

text \<open>The value of \<open>currBaseFee\<close> after lines 149 to 151.\<close>

definition head_fee :: "deps \<Rightarrow> Header \<Rightarrow> state \<Rightarrow> int" where
  "head_fee d h s =
     (case hd_ExcessBlobGas h of
        None \<Rightarrow> currBaseFee s
      | Some excess \<Rightarrow> CalcBlobFee d excess)"

text \<open>The record of lines 152 to 159, for a header whose base fee is \<open>baseFee\<close>.\<close>

definition head_blockData :: "deps \<Rightarrow> Header \<Rightarrow> state \<Rightarrow> int \<Rightarrow> BlockData" where
  "head_blockData d h s baseFee =
     \<lparr>BlockData_BlockHash = hd_Hash h,
      BlockData_BlockNumber = big_Uint64 (hd_Number h),
      BlockData_BlockTime = hd_Time h,
      BlockData_BlobBaseFeeWei = big_Uint64 (head_fee d h s),
      BlockData_BaseFeeGwei = Uint64_div_GWei (big_Uint64 baseFee),
      BlockData_Builder = ToValidUTF8 d (hd_Extra h)\<rparr>"

text \<open>The variables when the loop starts (line 169), the save of line 162 having succeeded.\<close>

definition head_pass :: "deps \<Rightarrow> Header \<Rightarrow> state \<Rightarrow> int \<Rightarrow> pass" where
  "head_pass d h s baseFee =
     \<lparr>vars = s\<lparr>currBaseFee := head_fee d h s,
                blockDataList := blockDataList s @ [head_blockData d h s baseFee],
                the_disk := (the_disk s)
                  \<lparr>files := (files (the_disk s))(blockDataFile \<mapsto>
                     json_Encode (json_BlockData d)
                       (blockDataList s @ [head_blockData d h s baseFee]))\<rparr>\<rparr>,
      blobsIncluded = 0, viabletxs = 0, viableBlobs = 0\<rparr>"

text \<open>The numbers logged after the loop, from the map before the loop and the loop's result.\<close>

definition head_summary :: "state \<Rightarrow> pass \<Rightarrow> Summary" where
  "head_summary s p =
     \<lparr>previousPendingTxs = int (card (dom (pendingTxs s))),
      currentPendingTxs = int (card (dom (pendingTxs (vars p)))),
      viableTxs = viabletxs p,
      viableBlobCount = viableBlobs p,
      transactionInclusions =
        int (card (dom (pendingTxs s))) - int (card (dom (pendingTxs (vars p)))),
      blobInclusions = blobsIncluded p\<rparr>"

text \<open>The failure that ends a head event, if it has one.\<close>

definition head_error :: "env \<Rightarrow> Header \<Rightarrow> (Hash \<rightharpoonup> Transaction) \<Rightarrow> fatal option" where
  "head_error e h m =
     (case hd_BaseFee h of
        None \<Rightarrow> Some NilPointerDereference
      | Some baseFee \<Rightarrow>
          (case save_error e blockDataFile of
             Some err \<Rightarrow> Some err
           | None \<Rightarrow>
               if list_ex (\<lambda>k. m k \<noteq> None \<and> included e h k) (range_order e)
               then save_error e txInclusionFile
               else None))"

text \<open>What of a head event's result does not depend on how the records are ordered.\<close>

definition counts_of ::
  "fatal + state \<times> Summary \<Rightarrow> fatal + (Hash \<rightharpoonup> Transaction) \<times> Summary" where
  "counts_of r = (case r of Inl err \<Rightarrow> Inl err | Inr (s, sm) \<Rightarrow> Inr (pendingTxs s, sm))"

subsection \<open>Concrete inputs\<close>

text \<open>
  Stand-ins for the library functions, the environment of an event, and the transaction
  of the specification's scenarios: nonce 5, blob fee cap 10 gwei, two blobs.
\<close>

definition ex_deps :: deps where
  "ex_deps =
     \<lparr>CalcBlobFee = (\<lambda>excess. uint excess),
      ToValidUTF8 = (\<lambda>bs. map (\<lambda>b. char_of (unat b)) bs),
      Time_String = (\<lambda>t. if t = 100 then ''t100'' else ''later''),
      json_TxData = \<lparr>json_Encode = (\<lambda>xs. replicate (length xs) CHR ''t''),
                      json_Unmarshal = (\<lambda>bs. None)\<rparr>,
      json_BlockData = \<lparr>json_Encode = (\<lambda>xs. replicate (length xs) CHR ''b''),
                         json_Unmarshal = (\<lambda>bs. None)\<rparr>,
      json_TxMetricsData = \<lparr>json_Encode = (\<lambda>xs. replicate (length xs) CHR ''m''),
                             json_Unmarshal = (\<lambda>bs. None)\<rparr>,
      json_TxInclusionData = \<lparr>json_Encode = (\<lambda>xs. replicate (length xs) CHR ''i''),
                               json_Unmarshal = (\<lambda>bs. None)\<rparr>\<rparr>"

definition ex_env :: "Time \<Rightarrow> (Hash \<Rightarrow> Receipt option) \<Rightarrow> uint64 option \<Rightarrow> Hash list \<Rightarrow> env" where
  "ex_env now receipts nonce order =
     \<lparr>TransactionReceipt = receipts,
      NonceAtHash = (\<lambda>acc blk. nonce),
      time_Now = (\<lambda>k. now),
      range_order = order,
      os_Create_ok = (\<lambda>f. True),
      Encode_ok = (\<lambda>f. True),
      os_Open_ok = (\<lambda>f. True),
      ReadAll_ok = (\<lambda>f. True),
      os_Mkdir_ok = (\<lambda>f. True)\<rparr>"

definition ex_tx :: Transaction where
  "ex_tx =
     \<lparr>tx_Type = 3, tx_Hash = 161, tx_Nonce = 5, tx_BlobGasFeeCap = 10000000000,
      tx_BlobGas = 262144, tx_BlobHashes = [1, 2], tx_GasFeeCap = 30000000000,
      tx_GasTipCap = 2000000000, tx_Gas = 21000, tx_Sender = Some 88\<rparr>"

text \<open>The same transaction with a signature from which no sender is recovered.\<close>

definition ex_tx_nosender :: Transaction where
  "ex_tx_nosender = ex_tx\<lparr>tx_Sender := None\<rparr>"

text \<open>A transaction of another type (a dynamic-fee transaction).\<close>

definition ex_tx_other :: Transaction where
  "ex_tx_other = ex_tx\<lparr>tx_Type := 2, tx_Hash := 162, tx_BlobHashes := []\<rparr>"

text \<open>The state after startup on an empty disk.\<close>

definition ex_s0 :: state where
  "ex_s0 =
     \<lparr>currBaseFee = 0, pendingTxs = Map.empty, txTime = Map.empty, txDataList = [],
      blockDataList = [], txMetricsList = [], txInclusionList = [],
      the_disk = \<lparr>files = Map.empty, folders = {dataFolder}\<rparr>\<rparr>"

text \<open>The state after \<open>ex_tx\<close> arrived at time 100.\<close>

definition ex_s1 :: state where
  "ex_s1 =
     ex_s0\<lparr>pendingTxs := [161 \<mapsto> ex_tx], txTime := [161 \<mapsto> 100],
           txDataList := [txData ex_tx],
           txMetricsList :=
             [\<lparr>TxMetrics_Account = 88, TxMetrics_BlobCount = 2,
               TxMetrics_BlobGasFeeCap = 10000000000, TxMetrics_TxTime = ''t100''\<rparr>],
           the_disk := \<lparr>files = [txDataFile \<mapsto> ''t'', txMetricsFile \<mapsto> ''m''],
                         folders = {dataFolder}\<rparr>\<rparr>"

text \<open>The state after \<open>ex_tx\<close> arrived a second time, at time 200.\<close>

definition ex_s2 :: state where
  "ex_s2 =
     ex_s1\<lparr>txTime := [161 \<mapsto> 200],
           txDataList := [txData ex_tx, txData ex_tx],
           txMetricsList :=
             [\<lparr>TxMetrics_Account = 88, TxMetrics_BlobCount = 2,
               TxMetrics_BlobGasFeeCap = 10000000000, TxMetrics_TxTime = ''t100''\<rparr>,
              \<lparr>TxMetrics_Account = 88, TxMetrics_BlobCount = 2,
               TxMetrics_BlobGasFeeCap = 10000000000, TxMetrics_TxTime = ''later''\<rparr>],
           the_disk := \<lparr>files = [txDataFile \<mapsto> ''tt'', txMetricsFile \<mapsto> ''mm''],
                         folders = {dataFolder}\<rparr>\<rparr>"

text \<open>
  A head whose excess blob gas gives, with the stand-in of \<open>ex_deps\<close>, a blob base fee
  of 8 gwei, and the record that the handler appends for it.
\<close>

definition ex_head :: Header where
  "ex_head =
     \<lparr>hd_Hash = 177, hd_Number = 100, hd_Time = 1700000000, hd_BaseFee = Some 7000000000,
      hd_ExcessBlobGas = Some 8000000000, hd_Extra = []\<rparr>"

definition ex_block :: BlockData where
  "ex_block =
     \<lparr>BlockData_BlockHash = 177, BlockData_BlockNumber = 100,
      BlockData_BlockTime = 1700000000, BlockData_BlobBaseFeeWei = 8000000000,
      BlockData_BaseFeeGwei = Uint64_div_GWei 7000000000, BlockData_Builder = []\<rparr>"

text \<open>The client knows no receipt; the client has a receipt of \<open>ex_tx\<close> in \<open>ex_head\<close>.\<close>

definition ex_no_receipt :: "Hash \<Rightarrow> Receipt option" where
  "ex_no_receipt k = None"

definition ex_receipt :: "Hash \<Rightarrow> Receipt option" where
  "ex_receipt k =
     (if k = 161 then Some \<lparr>rc_BlockHash = 177, rc_BlockNumber = 100\<rparr> else None)"

text \<open>
  \<open>ex_s1\<close> after \<open>ex_head\<close> at time 150, in three worlds: the account's nonce is 5
  and there is no receipt; the nonce is 6 and the receipt is in the head's block; the
  nonce is 6 and the receipt lookup fails.
\<close>

definition ex_s1_viable :: state where
  "ex_s1_viable =
     ex_s1\<lparr>currBaseFee := 8000000000, blockDataList := [ex_block],
           the_disk := \<lparr>files = [txDataFile \<mapsto> ''t'', txMetricsFile \<mapsto> ''m'',
                                   blockDataFile \<mapsto> ''b''],
                         folders = {dataFolder}\<rparr>\<rparr>"

definition ex_inclusion :: TxInclusionData where
  "ex_inclusion =
     \<lparr>TxInclusion_Account = 88, TxInclusion_BlobCount = 2,
      TxInclusion_InclusionDelay = Duration_Seconds 50,
      TxInclusion_GasTipGwei = Big_Float64_div_GWei 2000000000\<rparr>"

definition ex_s1_included :: state where
  "ex_s1_included =
     ex_s1\<lparr>currBaseFee := 8000000000, pendingTxs := Map.empty, txTime := Map.empty,
           blockDataList := [ex_block], txInclusionList := [ex_inclusion],
           the_disk := \<lparr>files = [txDataFile \<mapsto> ''t'', txMetricsFile \<mapsto> ''m'',
                                   blockDataFile \<mapsto> ''b'', txInclusionFile \<mapsto> ''i''],
                         folders = {dataFolder}\<rparr>\<rparr>"

definition ex_s1_superseded :: state where
  "ex_s1_superseded =
     ex_s1\<lparr>currBaseFee := 8000000000, pendingTxs := Map.empty, txTime := Map.empty,
           blockDataList := [ex_block],
           the_disk := \<lparr>files = [txDataFile \<mapsto> ''t'', txMetricsFile \<mapsto> ''m'',
                                   blockDataFile \<mapsto> ''b''],
                         folders = {dataFolder}\<rparr>\<rparr>"


text \<open>A second blob transaction, of another account, and a state that holds both.\<close>

definition ex_tx2 :: Transaction where
  "ex_tx2 = ex_tx\<lparr>tx_Hash := 163, tx_Nonce := 5, tx_BlobHashes := [3], tx_Sender := Some 89\<rparr>"

definition ex_s_two :: state where
  "ex_s_two =
     ex_s1\<lparr>pendingTxs := [161 \<mapsto> ex_tx, 163 \<mapsto> ex_tx2],
           txTime := [161 \<mapsto> 100, 163 \<mapsto> 120],
           txDataList := [txData ex_tx, txData ex_tx2],
           txMetricsList :=
             [\<lparr>TxMetrics_Account = 88, TxMetrics_BlobCount = 2,
               TxMetrics_BlobGasFeeCap = 10000000000, TxMetrics_TxTime = ''t100''\<rparr>,
              \<lparr>TxMetrics_Account = 89, TxMetrics_BlobCount = 1,
               TxMetrics_BlobGasFeeCap = 10000000000, TxMetrics_TxTime = ''later''\<rparr>],
           the_disk := \<lparr>files = [txDataFile \<mapsto> ''tt'', txMetricsFile \<mapsto> ''mm''],
                         folders = {dataFolder}\<rparr>\<rparr>"

text \<open>
  An empty disk, a head from before blob-fee accounting, and \<open>ex_s1\<close> after that head
  (the account's nonce being 5 and no receipt known).
\<close>

definition ex_disk0 :: disk where
  "ex_disk0 = \<lparr>files = Map.empty, folders = {}\<rparr>"

definition ex_head_old :: Header where
  "ex_head_old = ex_head\<lparr>hd_ExcessBlobGas := None\<rparr>"

definition ex_s1_old :: state where
  "ex_s1_old =
     ex_s1\<lparr>blockDataList := [ex_block\<lparr>BlockData_BlobBaseFeeWei := 0\<rparr>],
           the_disk := \<lparr>files = [txDataFile \<mapsto> ''t'', txMetricsFile \<mapsto> ''m'',
                                   blockDataFile \<mapsto> ''b''],
                         folders = {dataFolder}\<rparr>\<rparr>"

section \<open>Lemmas on the handlers\<close>

subsection \<open>One step of the loop\<close>

lemma saveDataToFile_save_error:
  "saveDataToFile e enc f xs dk =
     (case save_error e f of
        Some err \<Rightarrow> Inl err
      | None \<Rightarrow> Inr (dk\<lparr>files := (files dk)(f \<mapsto> enc xs)\<rparr>))"
  by (simp add: saveDataToFile_def save_error_def)

lemma recordTxInclusion_append:
  "recordTxInclusion xs tx dl = xs @ recordTxInclusion [] tx dl"
  by (simp add: recordTxInclusion_def split: option.splits)

lemma range_body_included:
  assumes "included e h k"
  shows "range_body d e h k tx p =
     (case save_error e txInclusionFile of
        Some err \<Rightarrow> Inl err
      | None \<Rightarrow>
          Inr (p\<lparr>vars := (vars p)
                 \<lparr>pendingTxs := (pendingTxs (vars p))(k := None),
                  txTime := (txTime (vars p))(k := None),
                  txInclusionList :=
                    recordTxInclusion (txInclusionList (vars p)) tx
                      (time_Since (time_Now e k) (txTime_at (vars p) k)),
                  the_disk := (the_disk (vars p))
                    \<lparr>files := (files (the_disk (vars p)))(txInclusionFile \<mapsto>
                       json_Encode (json_TxInclusionData d)
                         (recordTxInclusion (txInclusionList (vars p)) tx
                            (time_Since (time_Now e k) (txTime_at (vars p) k))))\<rparr>\<rparr>,
                 blobsIncluded := blobsIncluded p + int (length (tx_BlobHashes tx))\<rparr>))"
  using assms
  by (simp add: range_body_def included_def saveDataToFile_save_error Let_def
      split: option.splits)

lemma range_body_not_included:
  assumes "\<not> included e h k"
  shows "range_body d e h k tx p =
     (if nonce_exceeded e h tx then
        Inr (p\<lparr>vars := (vars p)\<lparr>pendingTxs := (pendingTxs (vars p))(k := None),
                                 txTime := (txTime (vars p))(k := None)\<rparr>\<rparr>)
      else if viable e h (currBaseFee (vars p)) k tx then
        Inr (p\<lparr>viabletxs := viabletxs p + 1,
               viableBlobs := viableBlobs p + int (length (tx_BlobHashes tx))\<rparr>)
      else Inr p)"
  using assms
  by (auto simp add: range_body_def included_def nonce_exceeded_def viable_def Let_def
      split: option.splits)

lemma range_body_Inl_iff:
  "range_body d e h k tx p = Inl err \<longleftrightarrow>
     included e h k \<and> save_error e txInclusionFile = Some err"
  by (cases "included e h k")
     (auto simp: range_body_included range_body_not_included split: option.splits)

lemma range_body_Inr_cases [consumes 1, case_names Included Superseded Viable Other]:
  assumes "range_body d e h k tx p = Inr p1"
  obtains
    (Included) "included e h k" and "save_error e txInclusionFile = None" and
      "p1 = p\<lparr>vars := (vars p)
                 \<lparr>pendingTxs := (pendingTxs (vars p))(k := None),
                  txTime := (txTime (vars p))(k := None),
                  txInclusionList :=
                    recordTxInclusion (txInclusionList (vars p)) tx
                      (time_Since (time_Now e k) (txTime_at (vars p) k)),
                  the_disk := (the_disk (vars p))
                    \<lparr>files := (files (the_disk (vars p)))(txInclusionFile \<mapsto>
                       json_Encode (json_TxInclusionData d)
                         (recordTxInclusion (txInclusionList (vars p)) tx
                            (time_Since (time_Now e k) (txTime_at (vars p) k))))\<rparr>\<rparr>,
                 blobsIncluded := blobsIncluded p + int (length (tx_BlobHashes tx))\<rparr>"
  | (Superseded) "\<not> included e h k" and "nonce_exceeded e h tx" and
      "p1 = p\<lparr>vars := (vars p)\<lparr>pendingTxs := (pendingTxs (vars p))(k := None),
                                  txTime := (txTime (vars p))(k := None)\<rparr>\<rparr>"
  | (Viable) "\<not> included e h k" and "\<not> nonce_exceeded e h tx" and
      "viable e h (currBaseFee (vars p)) k tx" and
      "p1 = p\<lparr>viabletxs := viabletxs p + 1,
                viableBlobs := viableBlobs p + int (length (tx_BlobHashes tx))\<rparr>"
  | (Other) "\<not> included e h k" and "\<not> nonce_exceeded e h tx" and
      "\<not> viable e h (currBaseFee (vars p)) k tx" and "p1 = p"
proof (cases "included e h k")
  case True
  with assms that(1) show thesis
    by (cases "save_error e txInclusionFile") (simp_all add: range_body_included)
next
  case False
  with assms that(2,3,4) show thesis
    by (simp add: range_body_not_included split: if_splits)
qed

lemma nonce_exceeded_not_viable:
  "nonce_exceeded e h tx \<Longrightarrow> \<not> viable e h fee k tx"
  by (auto simp: nonce_exceeded_def viable_def split: option.splits)

lemma included_not_viable:
  "included e h k \<Longrightarrow> \<not> viable e h fee k tx"
  by (simp add: viable_def)

lemma range_body_Inr_pending:
  assumes "range_body d e h k tx p = Inr p1"
  shows "pendingTxs (vars p1) =
           (if terminal e h k tx then (pendingTxs (vars p))(k := None) else pendingTxs (vars p))"
  using assms by (cases rule: range_body_Inr_cases) (simp_all add: terminal_def)

lemma range_body_Inr_txTime:
  assumes "range_body d e h k tx p = Inr p1"
  shows "txTime (vars p1) =
           (if terminal e h k tx then (txTime (vars p))(k := None) else txTime (vars p))"
  using assms by (cases rule: range_body_Inr_cases) (simp_all add: terminal_def)

lemma range_body_Inr_kept:
  assumes "range_body d e h k tx p = Inr p1"
  shows "currBaseFee (vars p1) = currBaseFee (vars p)"
    and "txDataList (vars p1) = txDataList (vars p)"
    and "blockDataList (vars p1) = blockDataList (vars p)"
    and "txMetricsList (vars p1) = txMetricsList (vars p)"
  using assms by (cases rule: range_body_Inr_cases; simp)+

lemma range_body_Inr_blobsIncluded:
  assumes "range_body d e h k tx p = Inr p1"
  shows "blobsIncluded p1 =
           blobsIncluded p + (if included e h k then int (length (tx_BlobHashes tx)) else 0)"
  using assms by (cases rule: range_body_Inr_cases) simp_all

lemma range_body_Inr_viabletxs:
  assumes "range_body d e h k tx p = Inr p1"
  shows "viabletxs p1 =
           viabletxs p + (if viable e h (currBaseFee (vars p)) k tx then 1 else 0)"
  using assms by (cases rule: range_body_Inr_cases) (simp_all add: nonce_exceeded_not_viable included_not_viable)

lemma range_body_Inr_viableBlobs:
  assumes "range_body d e h k tx p = Inr p1"
  shows "viableBlobs p1 =
           viableBlobs p
             + (if viable e h (currBaseFee (vars p)) k tx
                then int (length (tx_BlobHashes tx)) else 0)"
  using assms by (cases rule: range_body_Inr_cases) (simp_all add: nonce_exceeded_not_viable included_not_viable)

lemma range_body_Inr_txInclusionList:
  assumes "range_body d e h k tx p = Inr p1"
  shows "txInclusionList (vars p1) =
           txInclusionList (vars p)
             @ (if included e h k
                then recordTxInclusion [] tx (time_Since (time_Now e k) (txTime_at (vars p) k))
                else [])"
  using assms recordTxInclusion_append [of "txInclusionList (vars p)"]
  by (cases rule: range_body_Inr_cases) simp_all

lemma range_body_other_keys:
  assumes "range_body d e h k tx p = Inr p1" and "k' \<noteq> k"
  shows "pendingTxs (vars p1) k' = pendingTxs (vars p) k'"
    and "txTime (vars p1) k' = txTime (vars p) k'"
  using assms range_body_Inr_pending [OF assms(1)] range_body_Inr_txTime [OF assms(1)]
  by simp_all

subsection \<open>The loop\<close>

lemma range_pendingTxs_Cons_None:
  "pendingTxs (vars p) k = None \<Longrightarrow>
   range_pendingTxs d e h (k # rest) p = range_pendingTxs d e h rest p"
  by simp

lemma range_pendingTxs_Cons_Some:
  "pendingTxs (vars p) k = Some tx \<Longrightarrow>
   range_pendingTxs d e h (k # rest) p =
     (case range_body d e h k tx p of
        Inl err \<Rightarrow> Inl err
      | Inr p1 \<Rightarrow> range_pendingTxs d e h rest p1)"
  by simp

lemma range_pendingTxs_Cons_Inr_cases [consumes 1, case_names Absent Present]:
  assumes "range_pendingTxs d e h (k # rest) p = Inr p'"
  obtains
    (Absent) "pendingTxs (vars p) k = None" and "range_pendingTxs d e h rest p = Inr p'"
  | (Present) tx p1 where "pendingTxs (vars p) k = Some tx"
      and "range_body d e h k tx p = Inr p1" and "range_pendingTxs d e h rest p1 = Inr p'"
  using assms by (auto split: option.splits sum.splits)

lemma range_pendingTxs_pending:
  assumes "range_pendingTxs d e h ks p = Inr p'"
  shows "pendingTxs (vars p') =
           (\<lambda>k. if k \<in> set ks \<and> retired e h (pendingTxs (vars p)) k then None
                else pendingTxs (vars p) k)"
  using assms
proof (induction ks arbitrary: p)
  case Nil
  then show ?case by simp
next
  case (Cons k rest)
  from Cons.prems show ?case
  proof (cases rule: range_pendingTxs_Cons_Inr_cases)
    case Absent
    from Cons.IH [OF Absent(2)] Absent(1) show ?thesis
      by (auto simp: fun_eq_iff retired_def)
  next
    case (Present tx p1)
    from Cons.IH [OF Present(3)] range_body_Inr_pending [OF Present(2)] Present(1)
    show ?thesis
      by (auto simp: fun_eq_iff retired_def)
  qed
qed

lemma range_pendingTxs_txTime:
  assumes "range_pendingTxs d e h ks p = Inr p'"
  shows "txTime (vars p') =
           (\<lambda>k. if k \<in> set ks \<and> retired e h (pendingTxs (vars p)) k then None
                else txTime (vars p) k)"
  using assms
proof (induction ks arbitrary: p)
  case Nil
  then show ?case by simp
next
  case (Cons k rest)
  from Cons.prems show ?case
  proof (cases rule: range_pendingTxs_Cons_Inr_cases)
    case Absent
    from Cons.IH [OF Absent(2)] Absent(1) show ?thesis
      by (auto simp: fun_eq_iff retired_def)
  next
    case (Present tx p1)
    from Cons.IH [OF Present(3)] range_body_Inr_pending [OF Present(2)]
      range_body_Inr_txTime [OF Present(2)] Present(1)
    show ?thesis
      by (auto simp: fun_eq_iff retired_def)
  qed
qed

lemma range_pendingTxs_kept:
  assumes "range_pendingTxs d e h ks p = Inr p'"
  shows "currBaseFee (vars p') = currBaseFee (vars p)
       \<and> txDataList (vars p') = txDataList (vars p)
       \<and> blockDataList (vars p') = blockDataList (vars p)
       \<and> txMetricsList (vars p') = txMetricsList (vars p)"
  using assms
proof (induction ks arbitrary: p)
  case Nil
  then show ?case by simp
next
  case (Cons k rest)
  from Cons.prems show ?case
  proof (cases rule: range_pendingTxs_Cons_Inr_cases)
    case Absent
    from Cons.IH [OF Absent(2)] show ?thesis .
  next
    case (Present tx p1)
    from Cons.IH [OF Present(3)] range_body_Inr_kept [OF Present(2)]
    show ?thesis by simp
  qed
qed

text \<open>A counter that each step increases by an amount read at the step's own key.\<close>

lemma range_pendingTxs_sum:
  fixes f :: "pass \<Rightarrow> int" and c :: "state \<Rightarrow> Hash \<Rightarrow> int"
  assumes step: "\<And>k tx p p1. pendingTxs (vars p) k = Some tx \<Longrightarrow>
                   range_body d e h k tx p = Inr p1 \<Longrightarrow> f p1 = f p + c (vars p) k"
    and none: "\<And>s k. pendingTxs s k = None \<Longrightarrow> c s k = 0"
    and cong: "\<And>s1 s k. pendingTxs s1 k = pendingTxs s k \<Longrightarrow>
                 currBaseFee s1 = currBaseFee s \<Longrightarrow> c s1 k = c s k"
    and dist: "distinct ks"
    and run: "range_pendingTxs d e h ks p = Inr p'"
  shows "f p' = f p + sum_list (map (c (vars p)) ks)"
  using dist run
proof (induction ks arbitrary: p)
  case Nil
  then show ?case by simp
next
  case (Cons k rest)
  from Cons.prems(1) have dist': "distinct rest" and notin: "k \<notin> set rest" by simp_all
  from Cons.prems(2) show ?case
  proof (cases rule: range_pendingTxs_Cons_Inr_cases)
    case Absent
    from Cons.IH [OF dist' Absent(2)] none [OF Absent(1)] show ?thesis by simp
  next
    case (Present tx p1)
    have same: "c (vars p1) k' = c (vars p) k'" if "k' \<in> set rest" for k'
    proof -
      from that notin have "k' \<noteq> k" by auto
      from range_body_other_keys(1) [OF Present(2) this] range_body_Inr_kept(1) [OF Present(2)]
      show ?thesis by (rule cong)
    qed
    then have "map (c (vars p1)) rest = map (c (vars p)) rest" by simp
    with Cons.IH [OF dist' Present(3)] step [OF Present(1,2)] show ?thesis by simp
  qed
qed

lemma range_pendingTxs_blobsIncluded:
  assumes "distinct ks" and "range_pendingTxs d e h ks p = Inr p'"
  shows "blobsIncluded p' =
           blobsIncluded p + sum_list (map (blobs_of e h (pendingTxs (vars p))) ks)"
proof (rule range_pendingTxs_sum
    [where f = blobsIncluded and c = "\<lambda>s. blobs_of e h (pendingTxs s)", OF _ _ _ assms])
  fix k tx p p1
  assume "pendingTxs (vars p) k = Some tx" and "range_body d e h k tx p = Inr p1"
  then show "blobsIncluded p1 = blobsIncluded p + blobs_of e h (pendingTxs (vars p)) k"
    using range_body_Inr_blobsIncluded [of d e h k tx p p1] by (simp add: blobs_of_def)
qed (simp_all add: blobs_of_def)

lemma range_pendingTxs_viabletxs:
  assumes "distinct ks" and "range_pendingTxs d e h ks p = Inr p'"
  shows "viabletxs p' =
           viabletxs p
             + sum_list (map (viable_of e h (currBaseFee (vars p)) (pendingTxs (vars p))) ks)"
proof (rule range_pendingTxs_sum
    [where f = viabletxs and c = "\<lambda>s. viable_of e h (currBaseFee s) (pendingTxs s)",
      OF _ _ _ assms])
  fix k tx p p1
  assume "pendingTxs (vars p) k = Some tx" and "range_body d e h k tx p = Inr p1"
  then show "viabletxs p1 =
               viabletxs p + viable_of e h (currBaseFee (vars p)) (pendingTxs (vars p)) k"
    using range_body_Inr_viabletxs [of d e h k tx p p1] by (simp add: viable_of_def)
qed (simp_all add: viable_of_def)

lemma range_pendingTxs_viableBlobs:
  assumes "distinct ks" and "range_pendingTxs d e h ks p = Inr p'"
  shows "viableBlobs p' =
           viableBlobs p
             + sum_list
                 (map (viable_blobs_of e h (currBaseFee (vars p)) (pendingTxs (vars p))) ks)"
proof (rule range_pendingTxs_sum
    [where f = viableBlobs and c = "\<lambda>s. viable_blobs_of e h (currBaseFee s) (pendingTxs s)",
      OF _ _ _ assms])
  fix k tx p p1
  assume "pendingTxs (vars p) k = Some tx" and "range_body d e h k tx p = Inr p1"
  then show "viableBlobs p1 =
               viableBlobs p
                 + viable_blobs_of e h (currBaseFee (vars p)) (pendingTxs (vars p)) k"
    using range_body_Inr_viableBlobs [of d e h k tx p p1] by (simp add: viable_blobs_of_def)
qed (simp_all add: viable_blobs_of_def)

lemma inclusion_of_cong:
  "pendingTxs s1 k = pendingTxs s k \<Longrightarrow> txTime s1 k = txTime s k \<Longrightarrow>
   inclusion_of e h s1 k = inclusion_of e h s k"
  by (simp add: inclusion_of_def txTime_at_def split: option.splits)

lemma range_pendingTxs_txInclusionList:
  assumes "distinct ks" and "range_pendingTxs d e h ks p = Inr p'"
  shows "txInclusionList (vars p') =
           txInclusionList (vars p) @ concat (map (inclusion_of e h (vars p)) ks)"
  using assms
proof (induction ks arbitrary: p)
  case Nil
  then show ?case by simp
next
  case (Cons k rest)
  from Cons.prems(1) have dist': "distinct rest" and notin: "k \<notin> set rest" by simp_all
  from Cons.prems(2) show ?case
  proof (cases rule: range_pendingTxs_Cons_Inr_cases)
    case Absent
    from Absent(1) have "inclusion_of e h (vars p) k = []"
      by (simp add: inclusion_of_def)
    with Cons.IH [OF dist' Absent(2)] show ?thesis by simp
  next
    case (Present tx p1)
    have "inclusion_of e h (vars p1) k' = inclusion_of e h (vars p) k'"
      if "k' \<in> set rest" for k'
    proof -
      from that notin have "k' \<noteq> k" by auto
      from range_body_other_keys [OF Present(2) this] show ?thesis
        by (rule inclusion_of_cong)
    qed
    then have "map (inclusion_of e h (vars p1)) rest = map (inclusion_of e h (vars p)) rest"
      by simp
    then have "concat (map (inclusion_of e h (vars p1)) rest) =
        concat (map (inclusion_of e h (vars p)) rest)"
      by (rule arg_cong)
    moreover from Present(1) have "inclusion_of e h (vars p) k =
        (if included e h k
         then recordTxInclusion [] tx (time_Since (time_Now e k) (txTime_at (vars p) k))
         else [])"
      by (simp add: inclusion_of_def)
    ultimately show ?thesis
      using Cons.IH [OF dist' Present(3)] range_body_Inr_txInclusionList [OF Present(2)]
      by simp
  qed
qed

lemma range_pendingTxs_Inl_iff:
  "range_pendingTxs d e h ks p = Inl err \<longleftrightarrow>
     list_ex (\<lambda>k. pendingTxs (vars p) k \<noteq> None \<and> included e h k) ks
       \<and> save_error e txInclusionFile = Some err"
proof (induction ks arbitrary: p)
  case Nil
  then show ?case by simp
next
  case (Cons k rest)
  show ?case
  proof (cases "pendingTxs (vars p) k")
    case None
    then show ?thesis using Cons.IH [of p] by simp
  next
    case (Some tx)
    show ?thesis
    proof (cases "range_body d e h k tx p")
      case (Inl err')
      then have "included e h k" and "save_error e txInclusionFile = Some err'"
        by (simp_all add: range_body_Inl_iff)
      with Some Inl show ?thesis by auto
    next
      case (Inr p1)
      have nofail: "\<not> (included e h k \<and> save_error e txInclusionFile = Some err)"
        using Inr range_body_Inl_iff [of d e h k tx p err] by simp
      have other: "pendingTxs (vars p1) k' = pendingTxs (vars p) k'" if "k' \<noteq> k" for k'
        using range_body_other_keys(1) [OF Inr that] .
      have at_k: "pendingTxs (vars p1) k = None \<or> pendingTxs (vars p1) k = Some tx"
        using range_body_Inr_pending [OF Inr] Some by (simp split: if_splits)
      have "list_ex (\<lambda>k'. pendingTxs (vars p1) k' \<noteq> None \<and> included e h k') rest
              \<and> save_error e txInclusionFile = Some err
            \<longleftrightarrow> list_ex (\<lambda>k'. pendingTxs (vars p) k' \<noteq> None \<and> included e h k') rest
              \<and> save_error e txInclusionFile = Some err"
        using nofail other at_k Some unfolding list_ex_iff by (metis option.distinct(1))
      with Some Inr Cons.IH [of p1] nofail show ?thesis by auto
    qed
  qed
qed

subsection \<open>The head handler\<close>

lemma case_hdrChan_eq:
  "case_hdrChan d e h s =
     (case hd_BaseFee h of
        None \<Rightarrow> Inl NilPointerDereference
      | Some baseFee \<Rightarrow>
          (case save_error e blockDataFile of
             Some err \<Rightarrow> Inl err
           | None \<Rightarrow>
               (case range_pendingTxs d e h (range_order e) (head_pass d h s baseFee) of
                  Inl err \<Rightarrow> Inl err
                | Inr p \<Rightarrow> Inr (vars p, head_summary s p))))"
  by (simp add: case_hdrChan_def saveDataToFile_save_error head_pass_def head_summary_def
      head_blockData_def head_fee_def Let_def split: option.splits sum.splits)

lemma head_pass_simps:
  "pendingTxs (vars (head_pass d h s baseFee)) = pendingTxs s"
  "txTime (vars (head_pass d h s baseFee)) = txTime s"
  "currBaseFee (vars (head_pass d h s baseFee)) = head_fee d h s"
  "txDataList (vars (head_pass d h s baseFee)) = txDataList s"
  "txMetricsList (vars (head_pass d h s baseFee)) = txMetricsList s"
  "txInclusionList (vars (head_pass d h s baseFee)) = txInclusionList s"
  "blockDataList (vars (head_pass d h s baseFee)) =
     blockDataList s @ [head_blockData d h s baseFee]"
  "blobsIncluded (head_pass d h s baseFee) = 0"
  "viabletxs (head_pass d h s baseFee) = 0"
  "viableBlobs (head_pass d h s baseFee) = 0"
  by (simp_all add: head_pass_def)

lemma case_hdrChan_Inl_iff:
  "case_hdrChan d e h s = Inl err \<longleftrightarrow> head_error e h (pendingTxs s) = Some err"
proof (cases "hd_BaseFee h")
  case None
  then show ?thesis by (auto simp: case_hdrChan_eq head_error_def)
next
  case (Some baseFee)
  show ?thesis
  proof (cases "save_error e blockDataFile")
    case (Some err')
    with \<open>hd_BaseFee h = Some baseFee\<close> show ?thesis
      by (auto simp: case_hdrChan_eq head_error_def)
  next
    case None
    have "case_hdrChan d e h s = Inl err \<longleftrightarrow>
        range_pendingTxs d e h (range_order e) (head_pass d h s baseFee) = Inl err"
      using None \<open>hd_BaseFee h = Some baseFee\<close>
      by (simp add: case_hdrChan_eq split: sum.splits)
    also have "\<dots> \<longleftrightarrow> head_error e h (pendingTxs s) = Some err"
      using None \<open>hd_BaseFee h = Some baseFee\<close>
      by (simp add: range_pendingTxs_Inl_iff head_pass_simps head_error_def)
    finally show ?thesis .
  qed
qed

lemma case_hdrChan_Inr_cases [consumes 1, case_names Pass]:
  assumes "case_hdrChan d e h s = Inr (s', sm)"
  obtains baseFee p where "hd_BaseFee h = Some baseFee"
    and "save_error e blockDataFile = None"
    and "range_pendingTxs d e h (range_order e) (head_pass d h s baseFee) = Inr p"
    and "s' = vars p" and "sm = head_summary s p"
  using assms by (auto simp: case_hdrChan_eq split: option.splits sum.splits)

lemma case_hdrChan_succeeds:
  assumes "head_error e h (pendingTxs s) = None"
  obtains s' sm where "case_hdrChan d e h s = Inr (s', sm)"
proof (cases "case_hdrChan d e h s")
  case (Inl err)
  with assms show ?thesis by (simp add: case_hdrChan_Inl_iff)
next
  case (Inr r)
  with that show ?thesis by (cases r) simp
qed

lemma head_error_NoneI:
  assumes "hd_BaseFee h = Some baseFee" and "save_error e blockDataFile = None"
    and "save_error e txInclusionFile = None"
  shows "head_error e h m = None"
  using assms by (simp add: head_error_def)

lemma case_hdrChan_total:
  assumes "hd_BaseFee h = Some baseFee" and "save_error e blockDataFile = None"
    and "save_error e txInclusionFile = None"
  obtains s' sm where "case_hdrChan d e h s = Inr (s', sm)"
  using case_hdrChan_succeeds [OF head_error_NoneI [OF assms]] .

lemma range_order_okD:
  assumes "range_order_ok e s"
  shows "distinct (range_order e)" and "set (range_order e) = dom (pendingTxs s)"
  using assms by (simp_all add: range_order_ok_def)

lemma case_hdrChan_Inr_state:
  assumes "case_hdrChan d e h s = Inr (s', sm)"
  shows "currBaseFee s' = head_fee d h s"
    and "txDataList s' = txDataList s"
    and "txMetricsList s' = txMetricsList s"
    and "\<exists>baseFee. hd_BaseFee h = Some baseFee
           \<and> blockDataList s' = blockDataList s @ [head_blockData d h s baseFee]"
proof -
  from assms obtain baseFee p where base: "hd_BaseFee h = Some baseFee"
    and run: "range_pendingTxs d e h (range_order e) (head_pass d h s baseFee) = Inr p"
    and s': "s' = vars p"
    by (cases rule: case_hdrChan_Inr_cases)
  note kept = range_pendingTxs_kept [OF run, unfolded head_pass_simps, folded s']
  from kept show "currBaseFee s' = head_fee d h s" by simp
  from kept show "txDataList s' = txDataList s" by simp
  from kept show "txMetricsList s' = txMetricsList s" by simp
  from kept base show "\<exists>baseFee. hd_BaseFee h = Some baseFee
           \<and> blockDataList s' = blockDataList s @ [head_blockData d h s baseFee]" by simp
qed

lemma case_hdrChan_Inr_pending:
  assumes "case_hdrChan d e h s = Inr (s', sm)"
  shows "pendingTxs s' =
           (\<lambda>k. if k \<in> set (range_order e) \<and> retired e h (pendingTxs s) k then None
                else pendingTxs s k)"
    and "txTime s' =
           (\<lambda>k. if k \<in> set (range_order e) \<and> retired e h (pendingTxs s) k then None
                else txTime s k)"
proof -
  from assms obtain baseFee p
    where run: "range_pendingTxs d e h (range_order e) (head_pass d h s baseFee) = Inr p"
    and s': "s' = vars p"
    by (cases rule: case_hdrChan_Inr_cases)
  from range_pendingTxs_pending [OF run, unfolded head_pass_simps, folded s']
  show "pendingTxs s' =
           (\<lambda>k. if k \<in> set (range_order e) \<and> retired e h (pendingTxs s) k then None
                else pendingTxs s k)" .
  from range_pendingTxs_txTime [OF run, unfolded head_pass_simps, folded s']
  show "txTime s' =
           (\<lambda>k. if k \<in> set (range_order e) \<and> retired e h (pendingTxs s) k then None
                else txTime s k)" .
qed

lemma inclusion_of_head_pass:
  "inclusion_of e h (vars (head_pass d h0 s baseFee)) = inclusion_of e h s"
  by (rule ext, rule inclusion_of_cong) (simp_all add: head_pass_simps)

lemma case_hdrChan_Inr_txInclusionList:
  assumes "case_hdrChan d e h s = Inr (s', sm)" and "distinct (range_order e)"
  shows "txInclusionList s' =
           txInclusionList s @ concat (map (inclusion_of e h s) (range_order e))"
  using assms(1)
proof (cases rule: case_hdrChan_Inr_cases)
  case (Pass baseFee p)
  from range_pendingTxs_txInclusionList [OF assms(2) Pass(3)] Pass(4)
  show ?thesis by (simp add: head_pass_simps inclusion_of_head_pass)
qed

lemma case_hdrChan_Inr_summary:
  assumes "case_hdrChan d e h s = Inr (s', sm)" and "distinct (range_order e)"
  shows "previousPendingTxs sm = int (card (dom (pendingTxs s)))"
    and "currentPendingTxs sm = int (card (dom (pendingTxs s')))"
    and "transactionInclusions sm =
           int (card (dom (pendingTxs s))) - int (card (dom (pendingTxs s')))"
    and "blobInclusions sm = sum_list (map (blobs_of e h (pendingTxs s)) (range_order e))"
    and "viableTxs sm =
           sum_list (map (viable_of e h (head_fee d h s) (pendingTxs s)) (range_order e))"
    and "viableBlobCount sm =
           sum_list (map (viable_blobs_of e h (head_fee d h s) (pendingTxs s)) (range_order e))"
proof -
  from assms(1) obtain baseFee p
    where run: "range_pendingTxs d e h (range_order e) (head_pass d h s baseFee) = Inr p"
    and s': "s' = vars p" and sm: "sm = head_summary s p"
    by (cases rule: case_hdrChan_Inr_cases)
  from s' sm show "previousPendingTxs sm = int (card (dom (pendingTxs s)))"
    by (simp add: head_summary_def)
  from s' sm show "currentPendingTxs sm = int (card (dom (pendingTxs s')))"
    by (simp add: head_summary_def)
  from s' sm show "transactionInclusions sm =
           int (card (dom (pendingTxs s))) - int (card (dom (pendingTxs s')))"
    by (simp add: head_summary_def)
  from range_pendingTxs_blobsIncluded [OF assms(2) run] sm
  show "blobInclusions sm = sum_list (map (blobs_of e h (pendingTxs s)) (range_order e))"
    by (simp add: head_summary_def head_pass_simps)
  from range_pendingTxs_viabletxs [OF assms(2) run] sm
  show "viableTxs sm =
           sum_list (map (viable_of e h (head_fee d h s) (pendingTxs s)) (range_order e))"
    by (simp add: head_summary_def head_pass_simps)
  from range_pendingTxs_viableBlobs [OF assms(2) run] sm
  show "viableBlobCount sm =
           sum_list (map (viable_blobs_of e h (head_fee d h s) (pendingTxs s)) (range_order e))"
    by (simp add: head_summary_def head_pass_simps)
qed

subsection \<open>The order of the keys\<close>

lemma sum_list_any_order:
  fixes f :: "'a \<Rightarrow> int"
  assumes "distinct ks1" and "distinct ks2" and "set ks1 = set ks2"
  shows "sum_list (map f ks1) = sum_list (map f ks2)"
  using assms by (simp add: sum_list_distinct_conv_sum_set)

lemma range_order_update_branches:
  "included (e\<lparr>range_order := ks\<rparr>) h k = included e h k"
  "save_error (e\<lparr>range_order := ks\<rparr>) f = save_error e f"
  "nonce_exceeded (e\<lparr>range_order := ks\<rparr>) h tx = nonce_exceeded e h tx"
  "viable (e\<lparr>range_order := ks\<rparr>) h fee k tx = viable e h fee k tx"
  by (simp_all add: included_def save_error_def nonce_exceeded_def viable_def
      cong: option.case_cong)

lemma range_order_update_simps:
  "included (e\<lparr>range_order := ks\<rparr>) h = included e h"
  "save_error (e\<lparr>range_order := ks\<rparr>) = save_error e"
  "retired (e\<lparr>range_order := ks\<rparr>) h m = retired e h m"
  "blobs_of (e\<lparr>range_order := ks\<rparr>) h m = blobs_of e h m"
  "viable_of (e\<lparr>range_order := ks\<rparr>) h fee m = viable_of e h fee m"
  "viable_blobs_of (e\<lparr>range_order := ks\<rparr>) h fee m = viable_blobs_of e h fee m"
  by (rule ext,
      simp add: range_order_update_branches retired_def terminal_def blobs_of_def
        viable_of_def viable_blobs_of_def cong: option.case_cong)+

lemma head_error_any_order:
  assumes "set ks1 = set ks2"
  shows "head_error (e\<lparr>range_order := ks1\<rparr>) h m = head_error (e\<lparr>range_order := ks2\<rparr>) h m"
proof -
  from assms have "list_ex (\<lambda>k. m k \<noteq> None \<and> included e h k) ks1
      = list_ex (\<lambda>k. m k \<noteq> None \<and> included e h k) ks2"
    unfolding list_ex_iff by simp
  then show ?thesis
    by (simp add: head_error_def range_order_update_simps cong: option.case_cong)
qed

lemma case_hdrChan_any_order_Inr:
  assumes d1: "distinct ks1" and d2: "distinct ks2" and eq: "set ks1 = set ks2"
    and r1: "case_hdrChan d (e\<lparr>range_order := ks1\<rparr>) h s = Inr (s1, sm1)"
    and r2: "case_hdrChan d (e\<lparr>range_order := ks2\<rparr>) h s = Inr (s2, sm2)"
  shows "pendingTxs s1 = pendingTxs s2" and "sm1 = sm2"
proof -
  from case_hdrChan_Inr_pending(1) [OF r1] case_hdrChan_Inr_pending(1) [OF r2] eq
  show pend: "pendingTxs s1 = pendingTxs s2"
    by (simp add: range_order_update_simps)
  have o1: "distinct (range_order (e\<lparr>range_order := ks1\<rparr>))"
    and o2: "distinct (range_order (e\<lparr>range_order := ks2\<rparr>))"
    using d1 d2 by simp_all
  note sum1 = case_hdrChan_Inr_summary [OF r1 o1]
  note sum2 = case_hdrChan_Inr_summary [OF r2 o2]
  have blobs: "blobInclusions sm1 = blobInclusions sm2"
  proof -
    have "blobInclusions sm1 = sum_list (map (blobs_of e h (pendingTxs s)) ks1)"
      using sum1(4) by (simp add: range_order_update_simps)
    also have "\<dots> = sum_list (map (blobs_of e h (pendingTxs s)) ks2)"
      by (rule sum_list_any_order [OF d1 d2 eq])
    also have "\<dots> = blobInclusions sm2"
      using sum2(4) by (simp add: range_order_update_simps)
    finally show ?thesis .
  qed
  have txs: "viableTxs sm1 = viableTxs sm2"
  proof -
    have "viableTxs sm1 =
        sum_list (map (viable_of e h (head_fee d h s) (pendingTxs s)) ks1)"
      using sum1(5) by (simp add: range_order_update_simps)
    also have "\<dots> = sum_list (map (viable_of e h (head_fee d h s) (pendingTxs s)) ks2)"
      by (rule sum_list_any_order [OF d1 d2 eq])
    also have "\<dots> = viableTxs sm2"
      using sum2(5) by (simp add: range_order_update_simps)
    finally show ?thesis .
  qed
  have vblobs: "viableBlobCount sm1 = viableBlobCount sm2"
  proof -
    have "viableBlobCount sm1 =
        sum_list (map (viable_blobs_of e h (head_fee d h s) (pendingTxs s)) ks1)"
      using sum1(6) by (simp add: range_order_update_simps)
    also have "\<dots> =
        sum_list (map (viable_blobs_of e h (head_fee d h s) (pendingTxs s)) ks2)"
      by (rule sum_list_any_order [OF d1 d2 eq])
    also have "\<dots> = viableBlobCount sm2"
      using sum2(6) by (simp add: range_order_update_simps)
    finally show ?thesis .
  qed
  show "sm1 = sm2"
  proof (rule Summary.equality)
    show "previousPendingTxs sm1 = previousPendingTxs sm2"
      using sum1(1) sum2(1) by simp
    show "currentPendingTxs sm1 = currentPendingTxs sm2"
      using sum1(2) sum2(2) pend by simp
    show "transactionInclusions sm1 = transactionInclusions sm2"
      using sum1(3) sum2(3) pend by simp
  qed (simp_all add: blobs txs vblobs)
qed

subsection \<open>The transaction handler\<close>

lemma case_txChan_eq:
  "case_txChan d e tx s =
     (if tx_Type tx = BlobTxType then
        (case save_error e txDataFile of
           Some err \<Rightarrow> Inl err
         | None \<Rightarrow>
             (case save_error e txMetricsFile of
                Some err \<Rightarrow> Inl err
              | None \<Rightarrow>
                  Inr (s\<lparr>pendingTxs := (pendingTxs s)(tx_Hash tx \<mapsto> tx),
                         txTime := (txTime s)(tx_Hash tx \<mapsto> time_Now e (tx_Hash tx)),
                         txDataList := txDataList s @ [txData tx],
                         txMetricsList :=
                           recordTxMetrics d (txMetricsList s) tx (time_Now e (tx_Hash tx)),
                         the_disk := (the_disk s)
                           \<lparr>files := (files (the_disk s))
                              (txDataFile \<mapsto>
                                 json_Encode (json_TxData d) (txDataList s @ [txData tx]),
                               txMetricsFile \<mapsto>
                                 json_Encode (json_TxMetricsData d)
                                   (recordTxMetrics d (txMetricsList s) tx
                                      (time_Now e (tx_Hash tx))))\<rparr>\<rparr>)))
      else Inr s)"
  by (simp add: case_txChan_def saveDataToFile_save_error Let_def split: option.splits)

lemma case_txChan_pending:
  assumes "case_txChan d e tx s = Inr s'"
  shows "pendingTxs s' =
           (if tx_Type tx = BlobTxType then (pendingTxs s)(tx_Hash tx \<mapsto> tx) else pendingTxs s)"
    and "txTime s' =
           (if tx_Type tx = BlobTxType
            then (txTime s)(tx_Hash tx \<mapsto> time_Now e (tx_Hash tx)) else txTime s)"
  using assms by (auto simp: case_txChan_eq split: if_splits option.splits)

lemma case_txChan_currBaseFee:
  assumes "case_txChan d e tx s = Inr s'"
  shows "currBaseFee s' = currBaseFee s"
  using assms by (auto simp: case_txChan_eq split: if_splits option.splits)

subsection \<open>Runs of the event loop\<close>

lemma save_all_pending:
  assumes "save_all d e s = Inr s'"
  shows "pendingTxs s' = pendingTxs s" and "txTime s' = txTime s"
  using assms by (auto simp: save_all_def split: sum.splits)

lemma save_all_currBaseFee:
  assumes "save_all d e s = Inr s'"
  shows "currBaseFee s' = currBaseFee s"
  using assms by (auto simp: save_all_def split: sum.splits)

lemma main_init_currBaseFee:
  assumes "main_init d e dk = Inr s"
  shows "currBaseFee s = 0"
  using assms by (auto simp: main_init_def split: sum.splits)

lemma main_loop_currBaseFee:
  assumes "no_excess_blob_gas evs" and "main_loop d evs s = Inr s'"
  shows "currBaseFee s' = currBaseFee s"
  using assms
proof (induction d evs s rule: main_loop.induct)
  case (1 d s)
  then show ?case by simp
next
  case (2 d e evs s)
  then show ?case by (simp add: save_all_currBaseFee)
next
  case (3 d e evs s)
  then show ?case by (simp add: save_all_currBaseFee)
next
  case (4 d e tx evs s)
  from "4.prems"(2) obtain s1 where step: "case_txChan d e tx s = Inr s1"
    and rest: "main_loop d evs s1 = Inr s'"
    by (auto split: sum.splits)
  from "4.prems"(1) have "no_excess_blob_gas evs"
    by (simp add: no_excess_blob_gas_def)
  from "4.IH" [OF step this rest] case_txChan_currBaseFee [OF step] show ?case
    by simp
next
  case (5 d e h evs s)
  from "5.prems"(2) obtain s1 sm where step: "case_hdrChan d e h s = Inr (s1, sm)"
    and rest: "main_loop d evs s1 = Inr s'"
    by (auto split: sum.splits)
  from "5.prems"(1) have none: "hd_ExcessBlobGas h = None" and "no_excess_blob_gas evs"
    by (simp_all add: no_excess_blob_gas_def)
  from "5.IH" [OF step refl this(2) rest] case_hdrChan_Inr_state(1) [OF step] none
  show ?case by (simp add: head_fee_def)
qed

lemma main_init_maps_agree:
  assumes "main_init d e dk = Inr s"
  shows "maps_agree s"
  using assms by (auto simp: main_init_def maps_agree_def split: sum.splits)

lemma case_txChan_maps_agree:
  assumes "case_txChan d e tx s = Inr s'" and "maps_agree s"
  shows "maps_agree s'"
  using assms(2) case_txChan_pending [OF assms(1)]
  by (auto simp: maps_agree_def split: if_splits)

lemma case_hdrChan_maps_agree:
  assumes "case_hdrChan d e h s = Inr (s', sm)" and "maps_agree s"
  shows "maps_agree s'"
proof -
  note maps = case_hdrChan_Inr_pending [OF assms(1)]
  from assms(2) have keys: "dom (txTime s) = dom (pendingTxs s)"
    and blob: "\<And>hash tx. pendingTxs s hash = Some tx \<Longrightarrow>
                 tx_Type tx = BlobTxType \<and> tx_Hash tx = hash"
    by (simp_all add: maps_agree_def)
  from keys have same: "(\<exists>t. txTime s hash = Some t) = (\<exists>tx. pendingTxs s hash = Some tx)"
    for hash
    by (metis domD domI)
  have "dom (txTime s') = dom (pendingTxs s')"
    unfolding maps by (simp add: dom_def same)
  moreover have "tx_Type tx = BlobTxType \<and> tx_Hash tx = hash"
    if "pendingTxs s' hash = Some tx" for hash tx
    using that blob [of hash tx] unfolding maps by (simp split: if_splits)
  ultimately show ?thesis by (simp add: maps_agree_def)
qed

lemma main_loop_maps_agree:
  assumes "main_loop d evs s = Inr s'" and "maps_agree s"
  shows "maps_agree s'"
  using assms
proof (induction d evs s rule: main_loop.induct)
  case (1 d s)
  then show ?case by simp
next
  case (2 d e evs s)
  then show ?case using save_all_pending [of d e s s'] by (simp add: maps_agree_def)
next
  case (3 d e evs s)
  then show ?case using save_all_pending [of d e s s'] by (simp add: maps_agree_def)
next
  case (4 d e tx evs s)
  from "4.prems"(1) obtain s1 where step: "case_txChan d e tx s = Inr s1"
    and rest: "main_loop d evs s1 = Inr s'"
    by (auto split: sum.splits)
  from "4.IH" [OF step rest case_txChan_maps_agree [OF step "4.prems"(2)]] show ?case .
next
  case (5 d e h evs s)
  from "5.prems"(1) obtain s1 sm where step: "case_hdrChan d e h s = Inr (s1, sm)"
    and rest: "main_loop d evs s1 = Inr s'"
    by (auto split: sum.splits)
  from "5.IH" [OF step refl rest case_hdrChan_maps_agree [OF step "5.prems"(2)]] show ?case .
qed


subsection \<open>The concrete inputs, evaluated\<close>

lemmas ex_defs =
  ex_deps_def ex_env_def ex_tx_def ex_s0_def ex_s1_def ex_head_def ex_block_def
  ex_no_receipt_def ex_receipt_def ex_inclusion_def

lemma ex_saves_ok: "save_error (ex_env now receipts nonce order) f = None"
  by (simp add: save_error_def ex_env_def)

lemma ex_order_ok: "range_order_ok (ex_env now receipts nonce [161]) ex_s1"
  by (simp add: range_order_ok_def ex_env_def ex_s1_def)

lemma ex_head_base: "hd_BaseFee ex_head = Some 7000000000"
  by (simp add: ex_head_def)

lemma ex_pending: "pendingTxs ex_s1 161 = Some ex_tx"
  by (simp add: ex_s1_def)

lemma ex_init: "main_init ex_deps (ex_env 0 ex_no_receipt None []) ex_disk0 = Inr ex_s0"
  by (simp add: main_init_def loadDataFromFile_def createDataFolder_def ex_disk0_def
      ex_env_def ex_s0_def)

lemma ex_first: "case_txChan ex_deps (ex_env 100 ex_no_receipt None []) ex_tx ex_s0 = Inr ex_s1"
  by (simp add: case_txChan_eq ex_tx_def BlobTxType_def ex_s0_def ex_s1_def ex_env_def
      ex_deps_def recordTxMetrics_def big_Uint64_def save_error_def)

lemma ex_second: "case_txChan ex_deps (ex_env 200 ex_no_receipt None []) ex_tx ex_s1 = Inr ex_s2"
  by (simp add: case_txChan_eq ex_tx_def BlobTxType_def ex_s0_def ex_s1_def ex_s2_def ex_env_def
      ex_deps_def recordTxMetrics_def big_Uint64_def txData_def save_error_def)

lemma ex_head_viable:
  "case_hdrChan ex_deps (ex_env 150 ex_no_receipt (Some 5) [161]) ex_head ex_s1 =
     Inr (ex_s1_viable,
          \<lparr>previousPendingTxs = 1, currentPendingTxs = 1, viableTxs = 1,
           viableBlobCount = 2, transactionInclusions = 0, blobInclusions = 0\<rparr>)"
  by (simp add: case_hdrChan_def range_body_def saveDataToFile_def Let_def ex_defs
      ex_s1_viable_def big_Uint64_def)

lemma ex_head_included:
  "case_hdrChan ex_deps (ex_env 150 ex_receipt (Some 6) [161]) ex_head ex_s1 =
     Inr (ex_s1_included,
          \<lparr>previousPendingTxs = 1, currentPendingTxs = 0, viableTxs = 0,
           viableBlobCount = 0, transactionInclusions = 1, blobInclusions = 2\<rparr>)"
  by (simp add: case_hdrChan_def range_body_def saveDataToFile_def Let_def ex_defs
      ex_s1_included_def big_Uint64_def recordTxInclusion_def time_Since_def txTime_at_def)

lemma ex_head_superseded:
  "case_hdrChan ex_deps (ex_env 150 ex_no_receipt (Some 6) [161]) ex_head ex_s1 =
     Inr (ex_s1_superseded,
          \<lparr>previousPendingTxs = 1, currentPendingTxs = 0, viableTxs = 0,
           viableBlobCount = 0, transactionInclusions = 1, blobInclusions = 0\<rparr>)"
  by (simp add: case_hdrChan_def range_body_def saveDataToFile_def Let_def ex_defs
      ex_s1_superseded_def big_Uint64_def)

lemma ex_head_old_viable:
  "case_hdrChan ex_deps (ex_env 150 ex_no_receipt (Some 5) [161]) ex_head_old ex_s1 =
     Inr (ex_s1_old,
          \<lparr>previousPendingTxs = 1, currentPendingTxs = 1, viableTxs = 1,
           viableBlobCount = 2, transactionInclusions = 0, blobInclusions = 0\<rparr>)"
  by (simp add: case_hdrChan_def range_body_def saveDataToFile_def Let_def ex_defs
      ex_head_old_def ex_s1_old_def big_Uint64_def)


section \<open>The pending-transaction event\<close>

text \<open>
  Claim C1, as amended. When a blob transaction that is already in \<open>pendingTxs\<close>
  arrives again and the two saves succeed, the entry of \<open>pendingTxs\<close>, the base fee,
  \<open>blockDataList\<close> and \<open>txInclusionList\<close> stay as they are, but the handler is not a
  no-op: the admission time of the hash is overwritten with the current time, one
  record is appended to \<open>txDataList\<close>, \<open>recordTxMetrics\<close> is applied to
  \<open>txMetricsList\<close>, and both files are rewritten.
\<close>

theorem readmission_effect:
  assumes "pendingTxs s (tx_Hash tx) = Some tx"
    and "tx_Type tx = BlobTxType"
    and "save_error e txDataFile = None"
    and "save_error e txMetricsFile = None"
  shows "case_txChan d e tx s =
           Inr (s\<lparr>txTime := (txTime s)(tx_Hash tx \<mapsto> time_Now e (tx_Hash tx)),
                  txDataList := txDataList s @ [txData tx],
                  txMetricsList :=
                    recordTxMetrics d (txMetricsList s) tx (time_Now e (tx_Hash tx)),
                  the_disk := (the_disk s)
                    \<lparr>files := (files (the_disk s))
                       (txDataFile \<mapsto>
                          json_Encode (json_TxData d) (txDataList s @ [txData tx]),
                        txMetricsFile \<mapsto>
                          json_Encode (json_TxMetricsData d)
                            (recordTxMetrics d (txMetricsList s) tx
                               (time_Now e (tx_Hash tx))))\<rparr>\<rparr>)"
proof -
  from assms(1) have "(pendingTxs s)(tx_Hash tx \<mapsto> tx) = pendingTxs s"
    by (rule map_upd_triv)
  with assms(2-4) show ?thesis
    by (simp add: case_txChan_eq)
qed

theorem readmission_effect_witness:
  "pendingTxs ex_s1 (tx_Hash ex_tx) = Some ex_tx \<and> tx_Type ex_tx = BlobTxType
   \<and> case_txChan ex_deps (ex_env 200 ex_no_receipt None []) ex_tx ex_s1 =
       Inr (ex_s1\<lparr>txTime := (txTime ex_s1)(161 \<mapsto> 200),
                  txDataList := txDataList ex_s1 @ [txData ex_tx],
                  txMetricsList := recordTxMetrics ex_deps (txMetricsList ex_s1) ex_tx 200,
                  the_disk := (the_disk ex_s1)
                    \<lparr>files := (files (the_disk ex_s1))
                       (txDataFile \<mapsto> ''tt'', txMetricsFile \<mapsto> ''mm'')\<rparr>\<rparr>)"
proof -
  have pend: "pendingTxs ex_s1 (tx_Hash ex_tx) = Some ex_tx"
    by (simp add: ex_s1_def ex_tx_def)
  have blob: "tx_Type ex_tx = BlobTxType"
    by (simp add: ex_tx_def BlobTxType_def)
  have hash: "tx_Hash ex_tx = 161" and now: "time_Now (ex_env 200 ex_no_receipt None []) 161 = 200"
    by (simp_all add: ex_tx_def ex_env_def)
  have enc: "json_Encode (json_TxData ex_deps) (txDataList ex_s1 @ [txData ex_tx]) = ''tt''"
    "json_Encode (json_TxMetricsData ex_deps)
       (recordTxMetrics ex_deps (txMetricsList ex_s1) ex_tx 200) = ''mm''"
    by (simp_all add: ex_deps_def ex_s1_def ex_s0_def recordTxMetrics_def ex_tx_def)
  from readmission_effect [OF pend blob ex_saves_ok ex_saves_ok,
      of ex_deps 200 ex_no_receipt None "[]"]
  show ?thesis using pend blob by (simp add: hash now enc)
qed

text \<open>
  Claim C1, as stated, fails: after the second arrival of \<open>ex_tx\<close> the admission time
  of its hash and the two per-submission lists differ from what they were.
\<close>

theorem readmission_counterexample:
  "pendingTxs ex_s1 (tx_Hash ex_tx) = Some ex_tx
   \<and> case_txChan ex_deps (ex_env 200 ex_no_receipt None []) ex_tx ex_s1 = Inr ex_s2
   \<and> txTime ex_s1 (tx_Hash ex_tx) = Some 100
   \<and> txTime ex_s2 (tx_Hash ex_tx) = Some 200
   \<and> length (txDataList ex_s1) = 1 \<and> length (txDataList ex_s2) = 2
   \<and> length (txMetricsList ex_s1) = 1 \<and> length (txMetricsList ex_s2) = 2"
  using ex_second by (simp add: ex_s1_def ex_s2_def ex_tx_def ex_s0_def)

text \<open>
  Claim C6. A transaction from the stream enters \<open>pendingTxs\<close> exactly when its type
  is the blob type. For any other type the handler returns the state it was given: the
  map, the four lists and the files are untouched. For the blob type the handler either
  stores the transaction under its hash, or one of its two saves fails and the process
  ends.
\<close>

theorem admission_filter:
  "(tx_Type tx \<noteq> BlobTxType \<longrightarrow> case_txChan d e tx s = Inr s)
   \<and> (tx_Type tx = BlobTxType \<and> save_error e txDataFile = None
        \<and> save_error e txMetricsFile = None \<longrightarrow>
       (\<exists>s'. case_txChan d e tx s = Inr s'
           \<and> pendingTxs s' = (pendingTxs s)(tx_Hash tx \<mapsto> tx)))
   \<and> (tx_Type tx = BlobTxType
        \<and> (save_error e txDataFile \<noteq> None \<or> save_error e txMetricsFile \<noteq> None) \<longrightarrow>
       (\<exists>err. case_txChan d e tx s = Inl err))"
  by (cases "save_error e txDataFile"; cases "save_error e txMetricsFile")
     (simp_all add: case_txChan_eq)

theorem admission_filter_witness:
  "tx_Type ex_tx_other \<noteq> BlobTxType
   \<and> case_txChan ex_deps (ex_env 100 ex_no_receipt None []) ex_tx_other ex_s0 = Inr ex_s0
   \<and> tx_Type ex_tx = BlobTxType
   \<and> (\<exists>s'. case_txChan ex_deps (ex_env 100 ex_no_receipt None []) ex_tx ex_s0 = Inr s'
         \<and> pendingTxs s' = (pendingTxs ex_s0)(tx_Hash ex_tx \<mapsto> ex_tx))
   \<and> (\<exists>err. case_txChan ex_deps
                ((ex_env 100 ex_no_receipt None [])\<lparr>os_Create_ok := (\<lambda>f. False)\<rparr>) ex_tx ex_s0
              = Inl err)"
proof -
  have other: "tx_Type ex_tx_other \<noteq> BlobTxType"
    by (simp add: ex_tx_other_def ex_tx_def BlobTxType_def)
  have blob: "tx_Type ex_tx = BlobTxType"
    by (simp add: ex_tx_def BlobTxType_def)
  have bad: "save_error ((ex_env 100 ex_no_receipt None [])\<lparr>os_Create_ok := (\<lambda>f. False)\<rparr>)
               txDataFile \<noteq> None"
    by (simp add: save_error_def)
  from other blob bad ex_saves_ok
    admission_filter [of ex_tx_other ex_deps "ex_env 100 ex_no_receipt None []" ex_s0]
    admission_filter [of ex_tx ex_deps "ex_env 100 ex_no_receipt None []" ex_s0]
    admission_filter [of ex_tx ex_deps
      "(ex_env 100 ex_no_receipt None [])\<lparr>os_Create_ok := (\<lambda>f. False)\<rparr>" ex_s0]
  show ?thesis by blast
qed

text \<open>
  Claim C10. For a blob transaction whose sender is not recovered, the handler (its two
  saves succeeding) still stores the transaction and appends a record to \<open>txDataList\<close>,
  and that record is the zero value of the struct, while \<open>txMetricsList\<close> gets no
  record.
\<close>

theorem admit_without_sender:
  assumes "tx_Type tx = BlobTxType"
    and "tx_Sender tx = None"
    and "save_error e txDataFile = None"
    and "save_error e txMetricsFile = None"
  shows "\<exists>s'. case_txChan d e tx s = Inr s'
           \<and> pendingTxs s' (tx_Hash tx) = Some tx
           \<and> txDataList s' =
               txDataList s @
                 [\<lparr>TxData_TxHash = 0, TxData_BlobGasFeeCapGwei = Uint64_div_GWei 0,
                   TxData_BlobGas = 0, TxData_BlobCount = 0,
                   TxData_GasFeeCapGwei = Uint64_div_GWei 0,
                   TxData_GasTipCapGwei = Uint64_div_GWei 0, TxData_Gas = 0,
                   TxData_Account = 0\<rparr>]
           \<and> txMetricsList s' = txMetricsList s"
  using assms
  by (simp add: case_txChan_eq txData_def TxData_zero_def recordTxMetrics_def)

theorem admit_without_sender_witness:
  "tx_Type ex_tx_nosender = BlobTxType \<and> tx_Sender ex_tx_nosender = None
   \<and> (\<exists>s'. case_txChan ex_deps (ex_env 100 ex_no_receipt None []) ex_tx_nosender ex_s0 = Inr s'
         \<and> pendingTxs s' 161 = Some ex_tx_nosender
         \<and> txDataList s' =
             [\<lparr>TxData_TxHash = 0, TxData_BlobGasFeeCapGwei = Uint64_div_GWei 0,
               TxData_BlobGas = 0, TxData_BlobCount = 0,
               TxData_GasFeeCapGwei = Uint64_div_GWei 0,
               TxData_GasTipCapGwei = Uint64_div_GWei 0, TxData_Gas = 0,
               TxData_Account = 0\<rparr>]
         \<and> txMetricsList s' = [])"
proof -
  have blob: "tx_Type ex_tx_nosender = BlobTxType"
    and nosender: "tx_Sender ex_tx_nosender = None"
    and hash: "tx_Hash ex_tx_nosender = 161"
    by (simp_all add: ex_tx_nosender_def ex_tx_def BlobTxType_def)
  from admit_without_sender [OF blob nosender ex_saves_ok ex_saves_ok,
      of ex_deps 100 ex_no_receipt None "[]" ex_s0]
  show ?thesis using blob nosender by (simp add: hash ex_s0_def)
qed

section \<open>The new-head event\<close>

text \<open>
  Claim C2, as amended. For every new-head event that the handler completes (the
  header has a base fee and the saves succeed), exactly one record is appended to
  \<open>blockDataList\<close>. The record holds the block hash, the block number, the block
  time, the blob base fee, the base fee and the builder; it holds none of the six
  per-pass aggregates. Those are computed by the pass and written to the log: the size
  of \<open>pendingTxs\<close> before and after the loop, their difference, the blobs of the
  included transactions, and the viable transactions and their blobs.
\<close>

theorem head_appends_block_record:
  assumes "hd_BaseFee h = Some baseFee"
    and "save_error e blockDataFile = None"
    and "save_error e txInclusionFile = None"
    and "distinct (range_order e)"
  shows "\<exists>s' sm. case_hdrChan d e h s = Inr (s', sm)
           \<and> blockDataList s' =
               blockDataList s @
                 [\<lparr>BlockData_BlockHash = hd_Hash h,
                   BlockData_BlockNumber = big_Uint64 (hd_Number h),
                   BlockData_BlockTime = hd_Time h,
                   BlockData_BlobBaseFeeWei = big_Uint64 (head_fee d h s),
                   BlockData_BaseFeeGwei = Uint64_div_GWei (big_Uint64 baseFee),
                   BlockData_Builder = ToValidUTF8 d (hd_Extra h)\<rparr>]
           \<and> previousPendingTxs sm = int (card (dom (pendingTxs s)))
           \<and> currentPendingTxs sm = int (card (dom (pendingTxs s')))
           \<and> transactionInclusions sm =
               int (card (dom (pendingTxs s))) - int (card (dom (pendingTxs s')))
           \<and> blobInclusions sm =
               sum_list (map (blobs_of e h (pendingTxs s)) (range_order e))
           \<and> viableTxs sm =
               sum_list (map (viable_of e h (head_fee d h s) (pendingTxs s)) (range_order e))
           \<and> viableBlobCount sm =
               sum_list
                 (map (viable_blobs_of e h (head_fee d h s) (pendingTxs s)) (range_order e))"
proof -
  from assms(1-3) obtain s' sm where r: "case_hdrChan d e h s = Inr (s', sm)"
    by (rule case_hdrChan_total)
  from case_hdrChan_Inr_state(4) [OF r] assms(1)
  have "blockDataList s' = blockDataList s @ [head_blockData d h s baseFee]"
    by simp
  with r case_hdrChan_Inr_summary [OF r assms(4)] show ?thesis
    by (simp add: head_blockData_def)
qed

theorem head_appends_block_record_witness:
  "hd_BaseFee ex_head = Some 7000000000
   \<and> distinct (range_order (ex_env 150 ex_no_receipt (Some 5) [161]))
   \<and> (\<exists>s' sm. case_hdrChan ex_deps (ex_env 150 ex_no_receipt (Some 5) [161]) ex_head ex_s1
                 = Inr (s', sm)
         \<and> blockDataList s' = [ex_block]
         \<and> previousPendingTxs sm = 1 \<and> viableTxs sm = 1 \<and> viableBlobCount sm = 2
         \<and> blobInclusions sm = 0)"
proof -
  let ?e = "ex_env 150 ex_no_receipt (Some 5) [161]"
  have dist: "distinct (range_order ?e)"
    by (simp add: ex_env_def)
  have fee: "head_fee ex_deps ex_head ex_s1 = 8000000000"
    by (simp add: head_fee_def ex_deps_def ex_head_def)
  have viab: "viable ?e ex_head 8000000000 161 ex_tx"
    by (simp add: viable_def included_def ex_env_def ex_no_receipt_def ex_tx_def)
  have notinc: "\<not> included ?e ex_head 161"
    by (simp add: included_def ex_env_def ex_no_receipt_def)
  have order: "range_order ?e = [161]" and pend: "pendingTxs ex_s1 161 = Some ex_tx"
    and blobs: "tx_BlobHashes ex_tx = [1, 2]"
    by (simp_all add: ex_env_def ex_s1_def ex_tx_def)
  have block: "\<lparr>BlockData_BlockHash = hd_Hash ex_head,
       BlockData_BlockNumber = big_Uint64 (hd_Number ex_head),
       BlockData_BlockTime = hd_Time ex_head,
       BlockData_BlobBaseFeeWei = big_Uint64 8000000000,
       BlockData_BaseFeeGwei = Uint64_div_GWei (big_Uint64 7000000000),
       BlockData_Builder = ToValidUTF8 ex_deps (hd_Extra ex_head)\<rparr> = ex_block"
    by (simp add: ex_head_def ex_block_def ex_deps_def big_Uint64_def)
  have lists: "blockDataList ex_s1 = []" "card (dom (pendingTxs ex_s1)) = 1"
    by (simp_all add: ex_s1_def ex_s0_def)
  from head_appends_block_record [OF ex_head_base ex_saves_ok ex_saves_ok dist,
      where d = ex_deps and s = ex_s1]
  obtain s' sm where "case_hdrChan ex_deps ?e ex_head ex_s1 = Inr (s', sm)"
    and "blockDataList s' = [ex_block]"
    and "previousPendingTxs sm = 1" and "viableTxs sm = 1" and "viableBlobCount sm = 2"
    and "blobInclusions sm = 0"
    unfolding fee block order lists
    by (auto simp: viable_of_def viable_blobs_of_def blobs_of_def pend viab notinc blobs)
  with dist ex_head_base show ?thesis by blast
qed

text \<open>
  Claim C2, as stated, fails: the same head arriving in the same state appends the same
  record whether the pending transaction is found viable or found included, while the
  aggregates of the two passes differ.
\<close>

theorem block_record_counterexample:
  "case_hdrChan ex_deps (ex_env 150 ex_no_receipt (Some 5) [161]) ex_head ex_s1 =
     Inr (ex_s1_viable,
          \<lparr>previousPendingTxs = 1, currentPendingTxs = 1, viableTxs = 1,
           viableBlobCount = 2, transactionInclusions = 0, blobInclusions = 0\<rparr>)
   \<and> case_hdrChan ex_deps (ex_env 150 ex_receipt (Some 6) [161]) ex_head ex_s1 =
       Inr (ex_s1_included,
            \<lparr>previousPendingTxs = 1, currentPendingTxs = 0, viableTxs = 0,
             viableBlobCount = 0, transactionInclusions = 1, blobInclusions = 2\<rparr>)
   \<and> blockDataList ex_s1_viable = blockDataList ex_s1 @ [ex_block]
   \<and> blockDataList ex_s1_included = blockDataList ex_s1 @ [ex_block]"
  using ex_head_viable ex_head_included
  by (simp add: ex_s1_viable_def ex_s1_included_def ex_s1_def ex_s0_def)




text \<open>
  Claim C4, as amended. Take a pending transaction whose sender is recovered and for
  whose account the nonce lookup at the new head returns a nonce above the
  transaction's. Every pass that completes removes it from \<open>pendingTxs\<close> and from
  \<open>txTime\<close>, whatever the receipt lookup returned. Whether an inclusion record is
  appended for it depends on the receipt lookup: none when the lookup failed or gave a
  receipt of another block (the body then only performs the two deletions), and one
  record when the lookup gave a receipt of the new head's block, in which case the
  transaction is classified included, not superseded.
\<close>

theorem exceeded_nonce_removes:
  assumes "pendingTxs s hash = Some tx"
    and "tx_Sender tx = Some acc"
    and "NonceAtHash e acc (hd_Hash h) = Some currNonce"
    and "tx_Nonce tx < currNonce"
    and "range_order_ok e s"
    and "hd_BaseFee h = Some baseFee"
    and "save_error e blockDataFile = None"
    and "save_error e txInclusionFile = None"
  shows "\<exists>s' sm. case_hdrChan d e h s = Inr (s', sm)
           \<and> pendingTxs s' hash = None \<and> txTime s' hash = None
           \<and> txInclusionList s' =
               txInclusionList s @ concat (map (inclusion_of e h s) (range_order e))
           \<and> inclusion_of e h s hash =
               (if included e h hash
                then [\<lparr>TxInclusion_Account = acc,
                       TxInclusion_BlobCount = int (length (tx_BlobHashes tx)),
                       TxInclusion_InclusionDelay =
                         Duration_Seconds (time_Since (time_Now e hash) (txTime_at s hash)),
                       TxInclusion_GasTipGwei = Big_Float64_div_GWei (tx_GasTipCap tx)\<rparr>]
                else [])
           \<and> (\<not> included e h hash \<longrightarrow>
                (\<forall>p. range_body d e h hash tx p =
                   Inr (p\<lparr>vars := (vars p)
                          \<lparr>pendingTxs := (pendingTxs (vars p))(hash := None),
                           txTime := (txTime (vars p))(hash := None)\<rparr>\<rparr>)))"
proof -
  from assms(6-8) obtain s' sm where r: "case_hdrChan d e h s = Inr (s', sm)"
    by (rule case_hdrChan_total)
  from assms(2-4) have exceeded: "nonce_exceeded e h tx"
    by (simp add: nonce_exceeded_def)
  with assms(1) have ret: "retired e h (pendingTxs s) hash"
    by (simp add: retired_def terminal_def)
  from assms(1) range_order_okD(2) [OF assms(5)] have mem: "hash \<in> set (range_order e)"
    by auto
  from case_hdrChan_Inr_pending [OF r] ret mem
  have gone: "pendingTxs s' hash = None" "txTime s' hash = None"
    by simp_all
  note list = case_hdrChan_Inr_txInclusionList [OF r range_order_okD(1) [OF assms(5)]]
  have rec: "inclusion_of e h s hash =
      (if included e h hash
       then [\<lparr>TxInclusion_Account = acc,
              TxInclusion_BlobCount = int (length (tx_BlobHashes tx)),
              TxInclusion_InclusionDelay =
                Duration_Seconds (time_Since (time_Now e hash) (txTime_at s hash)),
              TxInclusion_GasTipGwei = Big_Float64_div_GWei (tx_GasTipCap tx)\<rparr>]
       else [])"
    using assms(1,2) by (simp add: inclusion_of_def recordTxInclusion_def)
  have body: "range_body d e h hash tx p =
      Inr (p\<lparr>vars := (vars p)\<lparr>pendingTxs := (pendingTxs (vars p))(hash := None),
                               txTime := (txTime (vars p))(hash := None)\<rparr>\<rparr>)"
    if "\<not> included e h hash" for p
    using that exceeded by (simp add: range_body_not_included)
  from r gone list rec body show ?thesis by blast
qed

theorem exceeded_nonce_removes_witness:
  "pendingTxs ex_s1 161 = Some ex_tx \<and> tx_Sender ex_tx = Some 88
   \<and> NonceAtHash (ex_env 150 ex_no_receipt (Some 6) [161]) 88 (hd_Hash ex_head) = Some 6
   \<and> tx_Nonce ex_tx < 6
   \<and> range_order_ok (ex_env 150 ex_no_receipt (Some 6) [161]) ex_s1
   \<and> hd_BaseFee ex_head = Some 7000000000
   \<and> (\<exists>s' sm. case_hdrChan ex_deps (ex_env 150 ex_no_receipt (Some 6) [161]) ex_head ex_s1
                 = Inr (s', sm)
         \<and> pendingTxs s' 161 = None \<and> txTime s' 161 = None
         \<and> txInclusionList s' = txInclusionList ex_s1)"
proof -
  let ?e = "ex_env 150 ex_no_receipt (Some 6) [161]"
  have sender: "tx_Sender ex_tx = Some 88" and lt: "tx_Nonce ex_tx < 6"
    by (simp_all add: ex_tx_def)
  have nonce: "NonceAtHash ?e 88 (hd_Hash ex_head) = Some 6"
    and order: "range_order ?e = [161]"
    by (simp_all add: ex_env_def)
  have notinc: "\<not> included ?e ex_head 161"
    by (simp add: included_def ex_env_def ex_no_receipt_def)
  from exceeded_nonce_removes [OF ex_pending sender nonce lt ex_order_ok ex_head_base
      ex_saves_ok ex_saves_ok, where d = ex_deps]
  obtain s' sm where "case_hdrChan ex_deps ?e ex_head ex_s1 = Inr (s', sm)"
    and "pendingTxs s' 161 = None" and "txTime s' 161 = None"
    and "txInclusionList s' = txInclusionList ex_s1"
    using notinc by (auto simp: order)
  with ex_pending sender nonce lt ex_order_ok [of 150 ex_no_receipt "Some 6"] ex_head_base
  show ?thesis by blast
qed

text \<open>
  Claim C4, as stated, fails: the account's nonce (6) is above the nonce of \<open>ex_tx\<close>
  (5) and the receipt lookup succeeds with a receipt of the new head's block; the pass
  removes \<open>ex_tx\<close> and appends an inclusion record for it.
\<close>

theorem exceeded_nonce_counterexample:
  "pendingTxs ex_s1 161 = Some ex_tx \<and> tx_Sender ex_tx = Some 88
   \<and> NonceAtHash (ex_env 150 ex_receipt (Some 6) [161]) 88 (hd_Hash ex_head) = Some 6
   \<and> tx_Nonce ex_tx < 6
   \<and> case_hdrChan ex_deps (ex_env 150 ex_receipt (Some 6) [161]) ex_head ex_s1 =
       Inr (ex_s1_included,
            \<lparr>previousPendingTxs = 1, currentPendingTxs = 0, viableTxs = 0,
             viableBlobCount = 0, transactionInclusions = 1, blobInclusions = 2\<rparr>)
   \<and> txInclusionList ex_s1 = []
   \<and> txInclusionList ex_s1_included = [ex_inclusion]
   \<and> TxInclusion_Account ex_inclusion = 88"
  using ex_head_included ex_pending
  by (simp add: ex_tx_def ex_env_def ex_s1_def ex_s0_def ex_s1_included_def ex_inclusion_def)

text \<open>
  Claim C8, as amended. Take a pending transaction for which the receipt lookup did not
  give a receipt of the new head's block. If its sender is not recovered, or the nonce
  lookup for the sender fails, then the body of the loop leaves every variable as it
  was, and after every pass that completes the transaction is still in \<open>pendingTxs\<close>
  with its admission time; it is classified neither included nor superseded. A failed
  receipt lookup alone does not keep a transaction pending: see the counterexample.
\<close>

theorem failed_lookup_stays_pending:
  assumes "pendingTxs s hash = Some tx"
    and "\<not> included e h hash"
    and "tx_Sender tx = None
         \<or> (\<exists>acc. tx_Sender tx = Some acc \<and> NonceAtHash e acc (hd_Hash h) = None)"
    and "hd_BaseFee h = Some baseFee"
    and "save_error e blockDataFile = None"
    and "save_error e txInclusionFile = None"
  shows "\<exists>s' sm. case_hdrChan d e h s = Inr (s', sm)
           \<and> pendingTxs s' hash = Some tx \<and> txTime s' hash = txTime s hash
           \<and> \<not> terminal e h hash tx
           \<and> inclusion_of e h s hash = []
           \<and> (\<forall>p. range_body d e h hash tx p = Inr p)"
proof -
  from assms(4-6) obtain s' sm where r: "case_hdrChan d e h s = Inr (s', sm)"
    by (rule case_hdrChan_total)
  from assms(3) have notexc: "\<not> nonce_exceeded e h tx"
    by (auto simp: nonce_exceeded_def)
  with assms(2) have notterm: "\<not> terminal e h hash tx"
    by (simp add: terminal_def)
  with assms(1) have "\<not> retired e h (pendingTxs s) hash"
    by (simp add: retired_def)
  with case_hdrChan_Inr_pending [OF r] assms(1)
  have kept: "pendingTxs s' hash = Some tx" "txTime s' hash = txTime s hash"
    by simp_all
  from assms(1,2) have norec: "inclusion_of e h s hash = []"
    by (simp add: inclusion_of_def)
  from assms(3) have "\<not> viable e h fee hash tx" for fee
    by (auto simp: viable_def)
  with assms(2) notexc have body: "range_body d e h hash tx p = Inr p" for p
    by (simp add: range_body_not_included)
  from r kept notterm norec body show ?thesis by blast
qed

theorem failed_lookup_stays_pending_witness:
  "pendingTxs ex_s1 161 = Some ex_tx
   \<and> \<not> included (ex_env 150 ex_no_receipt None [161]) ex_head 161
   \<and> tx_Sender ex_tx = Some 88
   \<and> NonceAtHash (ex_env 150 ex_no_receipt None [161]) 88 (hd_Hash ex_head) = None
   \<and> hd_BaseFee ex_head = Some 7000000000
   \<and> (\<exists>s' sm. case_hdrChan ex_deps (ex_env 150 ex_no_receipt None [161]) ex_head ex_s1
                 = Inr (s', sm)
         \<and> pendingTxs s' 161 = Some ex_tx \<and> txTime s' 161 = Some 100)"
proof -
  let ?e = "ex_env 150 ex_no_receipt None [161]"
  have notinc: "\<not> included ?e ex_head 161"
    by (simp add: included_def ex_env_def ex_no_receipt_def)
  have sender: "tx_Sender ex_tx = Some 88"
    by (simp add: ex_tx_def)
  have nonce: "NonceAtHash ?e 88 (hd_Hash ex_head) = None"
    by (simp add: ex_env_def)
  from sender nonce have fail: "tx_Sender ex_tx = None
      \<or> (\<exists>acc. tx_Sender ex_tx = Some acc \<and> NonceAtHash ?e acc (hd_Hash ex_head) = None)"
    by simp
  have time: "txTime ex_s1 161 = Some 100"
    by (simp add: ex_s1_def)
  from failed_lookup_stays_pending [OF ex_pending notinc fail ex_head_base
      ex_saves_ok ex_saves_ok, where d = ex_deps]
  obtain s' sm where "case_hdrChan ex_deps ?e ex_head ex_s1 = Inr (s', sm)"
    and "pendingTxs s' 161 = Some ex_tx" and "txTime s' 161 = Some 100"
    using time by auto
  with ex_pending notinc sender nonce ex_head_base show ?thesis by blast
qed

text \<open>
  Claim C8, as stated, fails: the receipt lookup for \<open>ex_tx\<close> fails, its sender is
  recovered and the account's nonce is 6; the pass removes \<open>ex_tx\<close> as superseded.
\<close>

theorem failed_lookup_counterexample:
  "pendingTxs ex_s1 161 = Some ex_tx
   \<and> TransactionReceipt (ex_env 150 ex_no_receipt (Some 6) [161]) 161 = None
   \<and> case_hdrChan ex_deps (ex_env 150 ex_no_receipt (Some 6) [161]) ex_head ex_s1 =
       Inr (ex_s1_superseded,
            \<lparr>previousPendingTxs = 1, currentPendingTxs = 0, viableTxs = 0,
             viableBlobCount = 0, transactionInclusions = 1, blobInclusions = 0\<rparr>)
   \<and> pendingTxs ex_s1_superseded 161 = None"
  using ex_head_superseded ex_pending
  by (simp add: ex_env_def ex_no_receipt_def ex_s1_superseded_def)

text \<open>
  Claim C5. For one state, one head and one environment, two orders in which \<open>range\<close>
  may yield the keys of \<open>pendingTxs\<close> give the same outcome of the head event: the
  same failure, or the same map after the pass and the same six numbers (the sizes of
  the map before and after, their difference, the included blobs, the viable
  transactions and the viable blobs).
\<close>

theorem order_independence:
  assumes "distinct ks1" and "set ks1 = dom (pendingTxs s)"
    and "distinct ks2" and "set ks2 = dom (pendingTxs s)"
  shows "counts_of (case_hdrChan d (e\<lparr>range_order := ks1\<rparr>) h s) =
         counts_of (case_hdrChan d (e\<lparr>range_order := ks2\<rparr>) h s)"
proof -
  from assms(2,4) have eq: "set ks1 = set ks2" by simp
  note err = head_error_any_order [OF eq, of e h "pendingTxs s"]
  show ?thesis
  proof (cases "case_hdrChan d (e\<lparr>range_order := ks1\<rparr>) h s")
    case (Inl err1)
    then have "case_hdrChan d (e\<lparr>range_order := ks2\<rparr>) h s = Inl err1"
      using err by (simp add: case_hdrChan_Inl_iff)
    with Inl show ?thesis by (simp add: counts_of_def)
  next
    case (Inr r1)
    obtain s1 sm1 where r1: "r1 = (s1, sm1)" by (cases r1)
    show ?thesis
    proof (cases "case_hdrChan d (e\<lparr>range_order := ks2\<rparr>) h s")
      case (Inl err2)
      then have "case_hdrChan d (e\<lparr>range_order := ks1\<rparr>) h s = Inl err2"
        using err by (simp add: case_hdrChan_Inl_iff)
      with Inr show ?thesis by simp
    next
      case Inr2: (Inr r2)
      obtain s2 sm2 where r2: "r2 = (s2, sm2)" by (cases r2)
      from case_hdrChan_any_order_Inr [OF assms(1,3) eq Inr [unfolded r1] Inr2 [unfolded r2]]
      show ?thesis using Inr Inr2 r1 r2 by (simp add: counts_of_def)
    qed
  qed
qed

theorem order_independence_witness:
  "distinct [161, 163 :: Hash] \<and> set [161, 163] = dom (pendingTxs ex_s_two)
   \<and> distinct [163, 161 :: Hash] \<and> set [163, 161] = dom (pendingTxs ex_s_two)
   \<and> counts_of (case_hdrChan ex_deps (ex_env 150 ex_receipt (Some 5) [161, 163]) ex_head
                  ex_s_two) =
       counts_of (case_hdrChan ex_deps (ex_env 150 ex_receipt (Some 5) [163, 161]) ex_head
                  ex_s_two)"
proof -
  have a: "distinct [161, 163 :: Hash]" and b: "set [161, 163] = dom (pendingTxs ex_s_two)"
    and c: "distinct [163, 161 :: Hash]" and d: "set [163, 161] = dom (pendingTxs ex_s_two)"
    by (auto simp: ex_s_two_def)
  have upd: "(ex_env 150 ex_receipt (Some 5) [])\<lparr>range_order := ks\<rparr> =
      ex_env 150 ex_receipt (Some 5) ks" for ks
    by (simp add: ex_env_def)
  from order_independence [OF a b c d, of ex_deps "ex_env 150 ex_receipt (Some 5) []" ex_head]
  show ?thesis using a b c d by (simp add: upd)
qed

section \<open>The blob base fee\<close>

text \<open>
  Claim C7. \<open>currBaseFee\<close> is zero when the loop starts, and it stays zero as long as
  no head of the events handled carries the excess-blob-gas field. A head that carries
  the field sets it to \<open>CalcBlobFee\<close> of the field, a head that lacks the field leaves
  it as it was, and the viability check of that head's pass compares against this new
  value. A pending-transaction event does not change it. (\<open>CalcBlobFee\<close> is the
  library's function, a parameter here.)
\<close>

theorem base_fee_tracking:
  "(main_init d e0 dk = Inr s0 \<longrightarrow> currBaseFee s0 = 0)
   \<and> (main_init d e0 dk = Inr s0 \<and> no_excess_blob_gas evs \<and> main_loop d evs s0 = Inr s1
        \<longrightarrow> currBaseFee s1 = 0)
   \<and> (case_hdrChan d e h s = Inr (s', sm) \<longrightarrow>
        currBaseFee s' =
          (case hd_ExcessBlobGas h of
             None \<Rightarrow> currBaseFee s
           | Some excess \<Rightarrow> CalcBlobFee d excess))
   \<and> (case_hdrChan d e h s = Inr (s', sm) \<and> distinct (range_order e) \<longrightarrow>
        viableTxs sm =
          sum_list
            (map (viable_of e h
                    (case hd_ExcessBlobGas h of
                       None \<Rightarrow> currBaseFee s
                     | Some excess \<Rightarrow> CalcBlobFee d excess)
                    (pendingTxs s))
               (range_order e)))
   \<and> (case_txChan d e tx s = Inr s'' \<longrightarrow> currBaseFee s'' = currBaseFee s)"
proof (intro conjI impI)
  assume "main_init d e0 dk = Inr s0"
  then show "currBaseFee s0 = 0" by (rule main_init_currBaseFee)
next
  assume "main_init d e0 dk = Inr s0 \<and> no_excess_blob_gas evs \<and> main_loop d evs s0 = Inr s1"
  then show "currBaseFee s1 = 0"
    using main_init_currBaseFee [of d e0 dk s0] main_loop_currBaseFee [of evs d s0 s1]
    by simp
next
  assume "case_hdrChan d e h s = Inr (s', sm)"
  from case_hdrChan_Inr_state(1) [OF this]
  show "currBaseFee s' =
      (case hd_ExcessBlobGas h of None \<Rightarrow> currBaseFee s | Some excess \<Rightarrow> CalcBlobFee d excess)"
    by (simp add: head_fee_def)
next
  assume "case_hdrChan d e h s = Inr (s', sm) \<and> distinct (range_order e)"
  then have r: "case_hdrChan d e h s = Inr (s', sm)" and dist: "distinct (range_order e)"
    by simp_all
  from case_hdrChan_Inr_summary(5) [OF r dist]
  show "viableTxs sm =
      sum_list
        (map (viable_of e h
                (case hd_ExcessBlobGas h of
                   None \<Rightarrow> currBaseFee s
                 | Some excess \<Rightarrow> CalcBlobFee d excess)
                (pendingTxs s))
           (range_order e))"
    by (simp add: head_fee_def)
next
  assume "case_txChan d e tx s = Inr s''"
  then show "currBaseFee s'' = currBaseFee s" by (rule case_txChan_currBaseFee)
qed

theorem base_fee_tracking_witness:
  "main_init ex_deps (ex_env 0 ex_no_receipt None []) ex_disk0 = Inr ex_s0
   \<and> currBaseFee ex_s0 = 0
   \<and> no_excess_blob_gas
       [(ex_env 100 ex_no_receipt None [], TxChan ex_tx),
        (ex_env 150 ex_no_receipt (Some 5) [161], HdrChan ex_head_old)]
   \<and> main_loop ex_deps
       [(ex_env 100 ex_no_receipt None [], TxChan ex_tx),
        (ex_env 150 ex_no_receipt (Some 5) [161], HdrChan ex_head_old)] ex_s0 = Inr ex_s1_old
   \<and> currBaseFee ex_s1_old = 0
   \<and> case_hdrChan ex_deps (ex_env 150 ex_no_receipt (Some 5) [161]) ex_head ex_s1 =
       Inr (ex_s1_viable,
            \<lparr>previousPendingTxs = 1, currentPendingTxs = 1, viableTxs = 1,
             viableBlobCount = 2, transactionInclusions = 0, blobInclusions = 0\<rparr>)
   \<and> hd_ExcessBlobGas ex_head = Some 8000000000
   \<and> currBaseFee ex_s1_viable = CalcBlobFee ex_deps 8000000000
   \<and> distinct (range_order (ex_env 150 ex_no_receipt (Some 5) [161]))
   \<and> case_txChan ex_deps (ex_env 100 ex_no_receipt None []) ex_tx ex_s0 = Inr ex_s1
   \<and> currBaseFee ex_s1 = currBaseFee ex_s0"
proof -
  let ?evs = "[(ex_env 100 ex_no_receipt None [], TxChan ex_tx),
               (ex_env 150 ex_no_receipt (Some 5) [161], HdrChan ex_head_old)]"
  let ?e = "ex_env 150 ex_no_receipt (Some 5) [161]"
  note first = ex_first
  have quiet: "no_excess_blob_gas ?evs"
    by (simp add: no_excess_blob_gas_def ex_head_old_def)
  have run: "main_loop ex_deps ?evs ex_s0 = Inr ex_s1_old"
    by (simp add: first ex_head_old_viable)
  have field: "hd_ExcessBlobGas ex_head = Some 8000000000"
    by (simp add: ex_head_def)
  have dist: "distinct (range_order ?e)"
    by (simp add: ex_env_def)
  from base_fee_tracking [of ex_deps "ex_env 0 ex_no_receipt None []" ex_disk0 ex_s0
      ?evs ex_s1_old ?e ex_head ex_s1 ex_s1_viable
      "\<lparr>previousPendingTxs = 1, currentPendingTxs = 1, viableTxs = 1,
        viableBlobCount = 2, transactionInclusions = 0, blobInclusions = 0\<rparr>" ex_tx]
    base_fee_tracking [of ex_deps "ex_env 0 ex_no_receipt None []" ex_disk0 ex_s0
      ?evs ex_s1_old "ex_env 100 ex_no_receipt None []" ex_head ex_s0 _ _ ex_tx ex_s1]
  show ?thesis
    using ex_init quiet run ex_head_viable field dist first by simp
qed

section \<open>The files\<close>

text \<open>
  What the two file functions do to a list: \<open>saveDataToFile\<close> replaces the content
  of the file by the encoding of the whole list and leaves every other file alone, and
  \<open>loadDataFromFile\<close> on the same file returns what the decoder makes of that
  encoding. Loading therefore gives the saved list back exactly when the decoder inverts
  the encoder on it. Encoder and decoder are \<open>encoding/json\<close>, which is not part of
  the repository: whether they are inverse on the records (their \<open>float64\<close>, string
  and hash fields) is not decided here.
\<close>

lemma load_after_save:
  assumes "os_Create_ok e filename" and "Encode_ok e filename"
    and "os_Open_ok e' filename" and "ReadAll_ok e' filename"
  shows "\<exists>dk'. saveDataToFile e enc filename data dk = Inr dk'
           \<and> loadDataFromFile e' dec filename dk' =
               (case dec (enc data) of
                  None \<Rightarrow> Inl (CouldNotUnmarshal filename)
                | Some loaded \<Rightarrow> Inr loaded)
           \<and> (\<forall>f. f \<noteq> filename \<longrightarrow> files dk' f = files dk f)"
  using assms by (simp add: saveDataToFile_def loadDataFromFile_def)

text \<open>
  For the program as a whole: each list is saved to and loaded from its own file, so the
  four saves of a shutdown followed by the four loads of a startup give back every list
  on which the decoder inverts the encoder.
\<close>

lemma file_names_distinct:
  "distinct [txDataFile, blockDataFile, txMetricsFile, txInclusionFile]"
  by (simp add: txDataFile_def blockDataFile_def txMetricsFile_def txInclusionFile_def)

lemma shutdown_then_startup:
  assumes saved: "save_all d e s = Inr s'"
    and opens: "\<And>f. os_Open_ok e' f" and reads: "\<And>f. ReadAll_ok e' f"
    and folder: "dataFolder \<in> folders (the_disk s) \<or> os_Mkdir_ok e' dataFolder"
    and inv: "json_Unmarshal (json_TxData d) (json_Encode (json_TxData d) (txDataList s))
                = Some (txDataList s)"
      "json_Unmarshal (json_BlockData d) (json_Encode (json_BlockData d) (blockDataList s))
                = Some (blockDataList s)"
      "json_Unmarshal (json_TxMetricsData d)
         (json_Encode (json_TxMetricsData d) (txMetricsList s)) = Some (txMetricsList s)"
      "json_Unmarshal (json_TxInclusionData d)
         (json_Encode (json_TxInclusionData d) (txInclusionList s)) = Some (txInclusionList s)"
  shows "\<exists>s0. main_init d e' (the_disk s') = Inr s0
           \<and> txDataList s0 = txDataList s \<and> blockDataList s0 = blockDataList s
           \<and> txMetricsList s0 = txMetricsList s \<and> txInclusionList s0 = txInclusionList s"
proof -
  from saved have disk: "the_disk s' = (the_disk s)
      \<lparr>files := (files (the_disk s))
         (txDataFile \<mapsto> json_Encode (json_TxData d) (txDataList s),
          blockDataFile \<mapsto> json_Encode (json_BlockData d) (blockDataList s),
          txMetricsFile \<mapsto> json_Encode (json_TxMetricsData d) (txMetricsList s),
          txInclusionFile \<mapsto> json_Encode (json_TxInclusionData d) (txInclusionList s))\<rparr>"
    by (auto simp: save_all_def saveDataToFile_save_error split: option.splits)
  from file_names_distinct folder show ?thesis
    unfolding disk
    by (auto simp: main_init_def loadDataFromFile_def createDataFolder_def opens reads inv)
qed

end
